theory Spec2Isabelle
  imports Complex_Main "HOL-Library.Monad_Syntax"
begin

section \<open>Bayesian temporal matrix factorization: the notebook's functions\<close>

text \<open>
  The development follows \<^verbatim>\<open>experiments/Imputation-BTMF.ipynb\<close>. Array entries are
  real numbers (the idealisation of numpy's float64), axis lengths are naturals, the lag
  values and iteration counts are Python integers. A computation that raises is \<open>None\<close>.
\<close>

subsection \<open>Arrays\<close>

text \<open>
  A numpy array is its shape and its entries in C order (last axis fastest). The entry at a
  multi-index is found through the flat position; \<open>ravel_F\<close> and \<open>unravel_F\<close> are the
  positions of Fortran order (first axis fastest) that \<^verbatim>\<open>order = 'F'\<close> asks for.
\<close>

record 'a ndarray =
  shape :: "nat list"
  data :: "'a list"

definition wf_array :: "'a ndarray \<Rightarrow> bool" where
  "wf_array A = (length (data A) = prod_list (shape A))"

fun ravel_C :: "nat list \<Rightarrow> nat list \<Rightarrow> nat" where
  "ravel_C (s # ss) (i # js) = i * prod_list ss + ravel_C ss js"
| "ravel_C _ _ = 0"

fun unravel_C :: "nat list \<Rightarrow> nat \<Rightarrow> nat list" where
  "unravel_C [] n = []"
| "unravel_C (s # ss) n = (n div prod_list ss) # unravel_C ss (n mod prod_list ss)"

fun ravel_F :: "nat list \<Rightarrow> nat list \<Rightarrow> nat" where
  "ravel_F (s # ss) (i # js) = i + s * ravel_F ss js"
| "ravel_F _ _ = 0"

fun unravel_F :: "nat list \<Rightarrow> nat \<Rightarrow> nat list" where
  "unravel_F [] n = []"
| "unravel_F (s # ss) n = (n mod s) # unravel_F ss (n div s)"

definition tabulate :: "nat list \<Rightarrow> (nat list \<Rightarrow> 'a) \<Rightarrow> 'a ndarray" where
  "tabulate shp f = \<lparr>shape = shp, data = map (\<lambda>n. f (unravel_C shp n)) [0..<prod_list shp]\<rparr>"

definition item :: "'a ndarray \<Rightarrow> nat list \<Rightarrow> 'a" where
  "item A idx = data A ! ravel_C (shape A) idx"

text \<open>
  \<^verbatim>\<open>np.moveaxis(a, source, destination)\<close> removes \<open>source\<close> from the axis order, inserts
  it at \<open>destination\<close> and transposes; an axis out of range raises.
\<close>

definition axis_position :: "nat list \<Rightarrow> nat \<Rightarrow> nat" where
  "axis_position order ax = length (takeWhile (\<lambda>a. a \<noteq> ax) order)"

definition transpose_axes :: "'a ndarray \<Rightarrow> nat list \<Rightarrow> 'a ndarray" where
  "transpose_axes A order =
     tabulate (map (\<lambda>a. shape A ! a) order)
       (\<lambda>idx. item A (map (\<lambda>ax. idx ! axis_position order ax) [0..<length (shape A)]))"

definition moveaxis :: "'a ndarray \<Rightarrow> nat \<Rightarrow> nat \<Rightarrow> 'a ndarray option" where
  "moveaxis A source destination =
     (let n = length (shape A) in
      if source < n \<and> destination < n then
        (let order = filter (\<lambda>a. a \<noteq> source) [0..<n]
         in Some (transpose_axes A (take destination order @ [source] @ drop destination order)))
      else None)"

text \<open>
  \<^verbatim>\<open>np.reshape\<close> with at most one negative entry in the new shape: the unknown length is
  inferred from the size, which fails when the known lengths multiply to 0 or do not
  divide the size.
\<close>

definition fix_unknown_dimension :: "int list \<Rightarrow> nat \<Rightarrow> nat list option" where
  "fix_unknown_dimension newshape sz =
     (let known = prod_list (map nat (filter (\<lambda>d. 0 \<le> d) newshape));
          unknown = length (filter (\<lambda>d. d < 0) newshape)
      in if unknown = 0 then (if known = sz then Some (map nat newshape) else None)
         else if unknown = 1 then
           (if known = 0 \<or> sz mod known \<noteq> 0 then None
            else Some (map (\<lambda>d. if d < 0 then sz div known else nat d) newshape))
         else None)"

definition reshape_F :: "'a ndarray \<Rightarrow> int list \<Rightarrow> 'a ndarray option" where
  "reshape_F A newshape = do {
     shp \<leftarrow> fix_unknown_dimension newshape (prod_list (shape A));
     Some (tabulate shp (\<lambda>idx. item A (unravel_F (shape A) (ravel_F shp idx))))
   }"

subsection \<open>Tensor unfolding and matrix folding\<close>

text \<open>
  \<^verbatim>\<open>
  def ten2mat(tensor, mode):
      return np.reshape(np.moveaxis(tensor, mode, 0), (tensor.shape[mode], -1), order = 'F')

  def mat2ten(mat, tensor_size, mode):
      index = list()
      index.append(mode)
      for i in range(tensor_size.shape[0]):
          if i != mode:
              index.append(i)
      return np.moveaxis(np.reshape(mat, list(tensor_size[index]), order = 'F'), 0, mode)
  \<close>
\<close>

definition ten2mat :: "'a ndarray \<Rightarrow> nat \<Rightarrow> 'a ndarray option" where
  "ten2mat tensor mode = do {
     moved \<leftarrow> moveaxis tensor mode 0;
     reshape_F moved [int (shape tensor ! mode), - 1]
   }"

definition mat2ten :: "'a ndarray \<Rightarrow> nat list \<Rightarrow> nat \<Rightarrow> 'a ndarray option" where
  "mat2ten mat tensor_size mode =
     (let index = mode # filter (\<lambda>i. i \<noteq> mode) [0..<length tensor_size] in
      if mode < length tensor_size then do {
        folded \<leftarrow> reshape_F mat (map (\<lambda>i. int (tensor_size ! i)) index);
        moveaxis folded 0 mode
      } else None)"

subsection \<open>Reductions over the lag array\<close>

text \<open>\<^verbatim>\<open>np.max\<close> and \<^verbatim>\<open>np.min\<close> raise \<^verbatim>\<open>ValueError\<close> on an empty array.\<close>

definition np_max :: "int list \<Rightarrow> int option" where
  "np_max xs = (case xs of [] \<Rightarrow> None | x # r \<Rightarrow> Some (fold max r x))"

definition np_min :: "int list \<Rightarrow> int option" where
  "np_min xs = (case xs of [] \<Rightarrow> None | x # r \<Rightarrow> Some (fold min r x))"

subsection \<open>Lag indices of the forward terms\<close>

text \<open>
  The index list that the temporal sampler iterates over at time step \<open>t\<close>:
  \<^verbatim>\<open>
  if t < dim2 - np.min(time_lags):
      if t >= np.max(time_lags) and t < dim2 - np.max(time_lags):
          index = list(range(0, d))
      else:
          index = list(np.where((t + time_lags >= np.max(time_lags))
                                & (t + time_lags < dim2)))[0]
      for k in index: ...
  \<close>
  When the outer test fails the loop over \<open>index\<close> is not entered: no lag contributes.
\<close>

definition forward_index :: "nat \<Rightarrow> nat \<Rightarrow> int list \<Rightarrow> nat list option" where
  "forward_index t dim2 time_lags = do {
     mx \<leftarrow> np_max time_lags;
     mn \<leftarrow> np_min time_lags;
     Some (if int t < int dim2 - mn then
             (if int t \<ge> mx \<and> int t < int dim2 - mx then [0..<length time_lags]
              else filter (\<lambda>k. int t + time_lags ! k \<ge> mx \<and> int t + time_lags ! k < int dim2)
                     [0..<length time_lags])
           else [])
   }"

subsection \<open>Array operations on real entries\<close>

text \<open>
  Each operation is defined on the number of axes the notebook uses it with and on shapes
  that agree exactly; on anything else it is \<open>None\<close> (numpy would raise there or, for axes
  of length one, broadcast, which the notebook never relies on).
\<close>

type_synonym array = "real ndarray"

definition zeros :: "nat list \<Rightarrow> array" where
  "zeros shp = \<lparr>shape = shp, data = replicate (prod_list shp) 0\<rparr>"

text \<open>\<^verbatim>\<open>np.zeros\<close> on a shape computed from Python integers: a negative length raises.\<close>

definition np_zeros :: "int list \<Rightarrow> array option" where
  "np_zeros shp = (if list_all (\<lambda>n. 0 \<le> n) shp then Some (zeros (map nat shp)) else None)"

definition eye :: "nat \<Rightarrow> array" where
  "eye n = tabulate [n, n] (\<lambda>idx. if idx ! 0 = idx ! 1 then 1 else 0)"

definition add_arrays :: "array \<Rightarrow> array \<Rightarrow> array option" where
  "add_arrays A B =
     (if shape A = shape B then Some \<lparr>shape = shape A, data = map2 (+) (data A) (data B)\<rparr>
      else None)"

definition sub_arrays :: "array \<Rightarrow> array \<Rightarrow> array option" where
  "sub_arrays A B =
     (if shape A = shape B then Some \<lparr>shape = shape A, data = map2 (-) (data A) (data B)\<rparr>
      else None)"

definition scalar_mul :: "real \<Rightarrow> array \<Rightarrow> array" where
  "scalar_mul c A = \<lparr>shape = shape A, data = map (\<lambda>x. c * x) (data A)\<rparr>"

definition scalar_div :: "array \<Rightarrow> real \<Rightarrow> array" where
  "scalar_div A c = \<lparr>shape = shape A, data = map (\<lambda>x. x / c) (data A)\<rparr>"

text \<open>The attribute \<^verbatim>\<open>.T\<close> reverses the axes.\<close>

definition transpose_array :: "array \<Rightarrow> array" where
  "transpose_array A = transpose_axes A (rev [0..<length (shape A)])"

text \<open>\<^verbatim>\<open>np.matmul\<close> of a matrix with a matrix and of a matrix with a vector.\<close>

definition matmul :: "array \<Rightarrow> array \<Rightarrow> array option" where
  "matmul A B =
     (if length (shape A) = 2 \<and> length (shape B) = 2 \<and> shape A ! 1 = shape B ! 0 then
        Some (tabulate [shape A ! 0, shape B ! 1]
          (\<lambda>idx. \<Sum>k\<leftarrow>[0..<shape A ! 1]. item A [idx ! 0, k] * item B [k, idx ! 1]))
      else if length (shape A) = 2 \<and> length (shape B) = 1 \<and> shape A ! 1 = shape B ! 0 then
        Some (tabulate [shape A ! 0]
          (\<lambda>idx. \<Sum>k\<leftarrow>[0..<shape A ! 1]. item A [idx ! 0, k] * item B [k]))
      else None)"

definition outer :: "array \<Rightarrow> array \<Rightarrow> array option" where
  "outer a b =
     (if length (shape a) = 1 \<and> length (shape b) = 1 then
        Some (tabulate [shape a ! 0, shape b ! 0] (\<lambda>idx. item a [idx ! 0] * item b [idx ! 1]))
      else None)"

text \<open>
  \<^verbatim>\<open>np.mean(mat, axis = 0)\<close> of a matrix. With no rows numpy divides by zero and returns
  not-a-number entries, which the reals do not have: \<open>None\<close>.
\<close>

definition mean_axis0 :: "array \<Rightarrow> array option" where
  "mean_axis0 mat =
     (if length (shape mat) = 2 \<and> shape mat ! 0 \<noteq> 0 then
        Some (tabulate [shape mat ! 1]
          (\<lambda>idx. (\<Sum>i\<leftarrow>[0..<shape mat ! 0]. item mat [i, idx ! 0]) / real (shape mat ! 0)))
      else None)"

text \<open>Reshaping in C order keeps the entries in place.\<close>

definition reshape_C :: "array \<Rightarrow> int list \<Rightarrow> array option" where
  "reshape_C A newshape = do {
     shp \<leftarrow> fix_unknown_dimension newshape (prod_list (shape A));
     Some \<lparr>shape = shp, data = data A\<rparr>
   }"

text \<open>\<^verbatim>\<open>np.dstack([A] * n)\<close>: an empty list of arrays raises.\<close>

definition dstack_copies :: "array \<Rightarrow> nat \<Rightarrow> array option" where
  "dstack_copies A n =
     (if n = 0 then None
      else if length (shape A) = 2 then
        Some (tabulate [shape A ! 0, shape A ! 1, n] (\<lambda>idx. item A [idx ! 0, idx ! 1]))
      else if length (shape A) = 1 then
        Some (tabulate [1, shape A ! 0, n] (\<lambda>idx. item A [idx ! 1]))
      else None)"

text \<open>An integer index counts from the end when negative and raises out of range.\<close>

definition norm_index :: "nat \<Rightarrow> int \<Rightarrow> nat option" where
  "norm_index n i =
     (if 0 \<le> i \<and> i < int n then Some (nat i)
      else if - int n \<le> i \<and> i < 0 then Some (nat (i + int n))
      else None)"

text \<open>\<^verbatim>\<open>A[:, :, k]\<close>, \<^verbatim>\<open>A[:, j]\<close>, \<^verbatim>\<open>A[0, :, :]\<close>, \<^verbatim>\<open>A[i, :]\<close>.\<close>

definition slab :: "array \<Rightarrow> nat \<Rightarrow> array option" where
  "slab A k =
     (if length (shape A) = 3 \<and> k < shape A ! 2 then
        Some (tabulate [shape A ! 0, shape A ! 1] (\<lambda>idx. item A [idx ! 0, idx ! 1, k]))
      else None)"

definition column :: "array \<Rightarrow> nat \<Rightarrow> array option" where
  "column A j =
     (if length (shape A) = 2 \<and> j < shape A ! 1 then
        Some (tabulate [shape A ! 0] (\<lambda>idx. item A [idx ! 0, j]))
      else None)"

definition first_plane :: "array \<Rightarrow> array option" where
  "first_plane A =
     (if length (shape A) = 3 \<and> 0 < shape A ! 0 then
        Some (tabulate [shape A ! 1, shape A ! 2] (\<lambda>idx. item A [0, idx ! 0, idx ! 1]))
      else None)"

definition row :: "array \<Rightarrow> int \<Rightarrow> array option" where
  "row A i =
     (if length (shape A) = 2 then do {
        r \<leftarrow> norm_index (shape A ! 0) i;
        Some (tabulate [shape A ! 1] (\<lambda>idx. item A [r, idx ! 0]))
      } else None)"

text \<open>\<^verbatim>\<open>A[indices, :]\<close> with an integer array of row indices.\<close>

definition those_all :: "'a option list \<Rightarrow> 'a list option" where
  "those_all xs = (if list_all (\<lambda>x. x \<noteq> None) xs then Some (map the xs) else None)"

definition take_rows :: "array \<Rightarrow> int list \<Rightarrow> array option" where
  "take_rows A indices =
     (if length (shape A) = 2 then do {
        rs \<leftarrow> those_all (map (norm_index (shape A ! 0)) indices);
        Some (tabulate [length rs, shape A ! 1] (\<lambda>idx. item A [rs ! (idx ! 0), idx ! 1]))
      } else None)"

text \<open>\<^verbatim>\<open>A[start : stop, :]\<close>: the bounds of a slice are clipped, never an error.\<close>

definition slice_bound :: "nat \<Rightarrow> int \<Rightarrow> nat" where
  "slice_bound n i = (if i < 0 then nat (max (i + int n) 0) else min (nat i) n)"

definition slice_rows :: "array \<Rightarrow> int \<Rightarrow> int \<Rightarrow> array option" where
  "slice_rows A start stop =
     (if length (shape A) = 2 then
        (let lo = slice_bound (shape A ! 0) start; hi = slice_bound (shape A ! 0) stop
         in Some (tabulate [hi - lo, shape A ! 1] (\<lambda>idx. item A [lo + idx ! 0, idx ! 1])))
      else None)"

text \<open>The assignments \<^verbatim>\<open>A[i, :] = v\<close>, \<^verbatim>\<open>A[0 : n, :] = B\<close> and \<^verbatim>\<open>A[:, :, k] = 0\<close>.\<close>

definition set_row :: "array \<Rightarrow> int \<Rightarrow> array \<Rightarrow> array option" where
  "set_row A i v =
     (if length (shape A) = 2 \<and> shape v = [shape A ! 1] then do {
        r \<leftarrow> norm_index (shape A ! 0) i;
        Some (tabulate (shape A) (\<lambda>idx. if idx ! 0 = r then item v [idx ! 1] else item A idx))
      } else None)"

definition set_leading_rows :: "array \<Rightarrow> nat \<Rightarrow> array \<Rightarrow> array option" where
  "set_leading_rows A n B =
     (if length (shape A) = 2 \<and> shape B = [min n (shape A ! 0), shape A ! 1] then
        Some (tabulate (shape A) (\<lambda>idx. if idx ! 0 < n then item B idx else item A idx))
      else None)"

definition zero_slab :: "array \<Rightarrow> nat \<Rightarrow> array option" where
  "zero_slab A k =
     (if length (shape A) = 3 \<and> k < shape A ! 2 then
        Some (tabulate (shape A) (\<lambda>idx. if idx ! 2 = k then 0 else item A idx))
      else None)"

text \<open>
  \<^verbatim>\<open>np.where(A != 0)\<close> lists the multi-indices of the non-zero entries in C order, and
  \<^verbatim>\<open>B[position]\<close> reads the entries of \<open>B\<close> at them.
\<close>

definition indices :: "nat list \<Rightarrow> nat list list" where
  "indices shp = map (unravel_C shp) [0..<prod_list shp]"

definition where_nonzero :: "array \<Rightarrow> nat list list" where
  "where_nonzero A = filter (\<lambda>idx. item A idx \<noteq> 0) (indices (shape A))"

definition take_at :: "array \<Rightarrow> nat list list \<Rightarrow> real list" where
  "take_at B position = map (item B) position"

text \<open>A \<^verbatim>\<open>for\<close> loop whose body may raise.\<close>

fun for_loop :: "('a \<Rightarrow> 's \<Rightarrow> 's option) \<Rightarrow> 'a list \<Rightarrow> 's \<Rightarrow> 's option" where
  "for_loop body [] s = Some s"
| "for_loop body (x # xs) s = body x s \<bind> for_loop body xs"

subsection \<open>Khatri-Rao product and scatter matrix\<close>

text \<open>
  \<^verbatim>\<open>
  def kr_prod(a, b):
      return np.einsum('ir, jr -> ijr', a, b).reshape(a.shape[0] * b.shape[0], -1)

  def cov_mat(mat):
      dim1, dim2 = mat.shape
      new_mat = np.zeros((dim2, dim2))
      mat_bar = np.mean(mat, axis = 0)
      for i in range(dim1):
          new_mat += np.einsum('i, j -> ij', mat[i, :] - mat_bar, mat[i, :] - mat_bar)
      return new_mat
  \<close>
\<close>

definition kr_prod :: "array \<Rightarrow> array \<Rightarrow> array option" where
  "kr_prod a b =
     (if length (shape a) = 2 \<and> length (shape b) = 2 \<and> shape a ! 1 = shape b ! 1 then
        reshape_C
          (tabulate [shape a ! 0, shape b ! 0, shape a ! 1]
             (\<lambda>idx. item a [idx ! 0, idx ! 2] * item b [idx ! 1, idx ! 2]))
          [int (shape a ! 0 * shape b ! 0), - 1]
      else None)"

definition cov_mat :: "array \<Rightarrow> array option" where
  "cov_mat mat =
     (if length (shape mat) = 2 then
        (let dim1 = shape mat ! 0; dim2 = shape mat ! 1;
             mat_bar = (\<lambda>j. (\<Sum>i\<leftarrow>[0..<dim1]. item mat [i, j]) / real dim1)
         in Some (fold
              (\<lambda>i new_mat. tabulate [dim2, dim2]
                 (\<lambda>idx. item new_mat idx
                    + (item mat [i, idx ! 0] - mat_bar (idx ! 0))
                      * (item mat [i, idx ! 1] - mat_bar (idx ! 1))))
              [0..<dim1] (zeros [dim2, dim2])))
      else None)"

subsection \<open>The numerical library\<close>

text \<open>
  The notebook calls numpy and scipy for matrix inversion, Cholesky factorisation and
  random draws. They are parameters of the model: \<open>linalg_inv\<close> is \<^verbatim>\<open>numpy.linalg.inv\<close>,
  \<open>linalg_cholesky\<close> is \<^verbatim>\<open>numpy.linalg.cholesky\<close>, \<open>wishart_rvs df scale\<close> is
  \<^verbatim>\<open>scipy.stats.wishart(df, scale).rvs()\<close>, \<open>invwishart_rvs\<close> likewise,
  \<open>multivariate_normal mean cov\<close> is \<^verbatim>\<open>numpy.random.multivariate_normal\<close> (imported as
  \<^verbatim>\<open>mvnrnd\<close>), \<open>random_rand d0 d1\<close> is \<^verbatim>\<open>numpy.random.rand\<close>, whose entries are uniform on
  \<open>[0, 1)\<close>, and \<open>random_gamma shape scale\<close> is \<^verbatim>\<open>numpy.random.gamma\<close>. A draw takes the
  state \<open>'g\<close> of the global random generator and returns the next state.
\<close>

record 'g numlib =
  linalg_inv :: "array \<Rightarrow> array option"
  linalg_cholesky :: "array \<Rightarrow> array option"
  wishart_rvs :: "int \<Rightarrow> array \<Rightarrow> 'g \<Rightarrow> (array \<times> 'g) option"
  invwishart_rvs :: "int \<Rightarrow> array \<Rightarrow> 'g \<Rightarrow> (array \<times> 'g) option"
  multivariate_normal :: "array \<Rightarrow> array \<Rightarrow> 'g \<Rightarrow> (array \<times> 'g) option"
  random_rand :: "nat \<Rightarrow> nat \<Rightarrow> 'g \<Rightarrow> array \<times> 'g"
  random_gamma :: "real \<Rightarrow> real \<Rightarrow> 'g \<Rightarrow> (real \<times> 'g) option"

subsection \<open>Matrix normal random matrix\<close>

text \<open>
  \<^verbatim>\<open>
  def mnrnd(M, U, V):
      """
      Generate matrix normal distributed random matrix.
      M is a m-by-n matrix, U is a m-by-m matrix, and V is a n-by-n matrix.
      """
      dim1, dim2 = M.shape
      X0 = np.random.rand(dim1, dim2)
      P = np.linalg.cholesky(U)
      Q = np.linalg.cholesky(V)
      return M + np.matmul(np.matmul(P, X0), Q.T)
  \<close>
\<close>

definition mnrnd :: "'g numlib \<Rightarrow> array \<Rightarrow> array \<Rightarrow> array \<Rightarrow> 'g \<Rightarrow> (array \<times> 'g) option" where
  "mnrnd lib M U V g =
     (if length (shape M) = 2 then do {
        let dim1 = shape M ! 0;
        let dim2 = shape M ! 1;
        let (X0, g') = random_rand lib dim1 dim2 g;
        P \<leftarrow> linalg_cholesky lib U;
        Q \<leftarrow> linalg_cholesky lib V;
        PX0 \<leftarrow> matmul P X0;
        PX0Q \<leftarrow> matmul PX0 (transpose_array Q);
        R \<leftarrow> add_arrays M PX0Q;
        Some (R, g')
      } else None)"

subsection \<open>The sampler\<close>

text \<open>
  \<open>BTMF\<close> binds \<^verbatim>\<open>W = init["W"]\<close> and \<^verbatim>\<open>X = init["X"]\<close> without copying and assigns to their
  rows, so the two arrays live in a store shared with the caller: a list of arrays whose
  positions are the references. Every other array of the function is a fresh temporary
  and is modelled as a value.
\<close>

type_synonym store = "array list"

record init_dict =
  init_W :: nat
  init_X :: nat

definition deref :: "store \<Rightarrow> nat \<Rightarrow> array option" where
  "deref h r = (if r < length h then Some (h ! r) else None)"

text \<open>
  The pattern shared by both row loops:
  \<^verbatim>\<open>
  inv_var_Lambda = inv(precision)
  row = mvnrnd(np.matmul(inv_var_Lambda, var_mu), inv_var_Lambda)
  \<close>
\<close>

definition draw_row :: "'g numlib \<Rightarrow> array \<Rightarrow> array \<Rightarrow> 'g \<Rightarrow> (array \<times> 'g) option" where
  "draw_row lib precision var_mu g = do {
     inv_var_Lambda \<leftarrow> linalg_inv lib precision;
     mean \<leftarrow> matmul inv_var_Lambda var_mu;
     multivariate_normal lib mean inv_var_Lambda g
   }"

text \<open>
  The mask of the observed entries:
  \<^verbatim>\<open>
  position = np.where(sparse_mat != 0)
  binary_mat = np.zeros((dim1, dim2))
  binary_mat[position] = 1
  \<close>
\<close>

definition binary_of :: "array \<Rightarrow> array" where
  "binary_of sparse_mat =
     tabulate (shape sparse_mat) (\<lambda>idx. if idx \<in> set (where_nonzero sparse_mat) then 1 else 0)"

text \<open>
  The hyperparameters of the loading matrix and its rows
  (\<^verbatim>\<open>beta0 = 1\<close>, \<^verbatim>\<open>nu0 = rank\<close>, \<^verbatim>\<open>W0 = np.eye(rank)\<close>):
  \<^verbatim>\<open>
  W_bar = np.mean(W, axis = 0)
  var_mu_hyper = (dim1 * W_bar)/(dim1 + beta0)
  var_W_hyper = inv(inv(W0) + cov_mat(W) + dim1 * beta0/(dim1 + beta0) * np.outer(W_bar, W_bar))
  var_Lambda_hyper = wishart(df = dim1 + nu0, scale = var_W_hyper, seed = None).rvs()
  var_mu_hyper = mvnrnd(var_mu_hyper, inv((dim1 + beta0) * var_Lambda_hyper))

  var1 = X.T
  var2 = kr_prod(var1, var1)
  var3 = tau * np.matmul(var2, binary_mat.T).reshape([rank, rank, dim1]) + np.dstack([var_Lambda_hyper] * dim1)
  var4 = (tau * np.matmul(var1, sparse_mat.T)
          + np.dstack([np.matmul(var_Lambda_hyper, var_mu_hyper)] * dim1)[0, :, :])
  for i in range(dim1):
      inv_var_Lambda = inv(var3[:, :, i])
      W[i, :] = mvnrnd(np.matmul(inv_var_Lambda, var4[:, i]), inv_var_Lambda)
  \<close>
\<close>

definition sample_W_row ::
  "'g numlib \<Rightarrow> array \<Rightarrow> array \<Rightarrow> nat \<Rightarrow> nat \<Rightarrow> store \<times> 'g \<Rightarrow> (store \<times> 'g) option" where
  "sample_W_row lib var3 var4 wref i hg = do {
     precision \<leftarrow> slab var3 i;
     var_mu \<leftarrow> column var4 i;
     (w, g') \<leftarrow> draw_row lib precision var_mu (snd hg);
     W \<leftarrow> deref (fst hg) wref;
     W' \<leftarrow> set_row W (int i) w;
     Some ((fst hg)[wref := W'], g')
   }"

definition sample_W ::
  "'g numlib \<Rightarrow> array \<Rightarrow> nat \<Rightarrow> init_dict \<Rightarrow> real \<Rightarrow> store \<times> 'g \<Rightarrow> (store \<times> 'g) option" where
  "sample_W lib sparse_mat rank init tau_now hg = do {
     let dim1 = shape sparse_mat ! 0;
     let beta0 = 1;
     let nu0 = rank;
     let W0 = eye rank;
     W \<leftarrow> deref (fst hg) (init_W init);
     X \<leftarrow> deref (fst hg) (init_X init);
     W_bar \<leftarrow> mean_axis0 W;
     let var_mu_hyper = scalar_div (scalar_mul (real dim1) W_bar) (real dim1 + beta0);
     inv_W0 \<leftarrow> linalg_inv lib W0;
     scatter \<leftarrow> cov_mat W;
     sum1 \<leftarrow> add_arrays inv_W0 scatter;
     W_bar2 \<leftarrow> outer W_bar W_bar;
     sum2 \<leftarrow> add_arrays sum1 (scalar_mul (real dim1 * beta0 / (real dim1 + beta0)) W_bar2);
     var_W_hyper \<leftarrow> linalg_inv lib sum2;
     (var_Lambda_hyper, g1) \<leftarrow> wishart_rvs lib (int dim1 + int nu0) var_W_hyper (snd hg);
     cov \<leftarrow> linalg_inv lib (scalar_mul (real dim1 + beta0) var_Lambda_hyper);
     (var_mu_hyper, g2) \<leftarrow> multivariate_normal lib var_mu_hyper cov g1;
     let var1 = transpose_array X;
     var2 \<leftarrow> kr_prod var1 var1;
     prod3 \<leftarrow> matmul var2 (transpose_array (binary_of sparse_mat));
     cube \<leftarrow> reshape_C prod3 [int rank, int rank, int dim1];
     stack \<leftarrow> dstack_copies var_Lambda_hyper dim1;
     var3 \<leftarrow> add_arrays (scalar_mul tau_now cube) stack;
     prod4 \<leftarrow> matmul var1 (transpose_array sparse_mat);
     Lambda_mu \<leftarrow> matmul var_Lambda_hyper var_mu_hyper;
     stack4 \<leftarrow> dstack_copies Lambda_mu dim1;
     plane \<leftarrow> first_plane stack4;
     var4 \<leftarrow> add_arrays (scalar_mul tau_now prod4) plane;
     for_loop (sample_W_row lib var3 var4 (init_W init)) [0..<dim1] (fst hg, g2)
   }"

text \<open>
  The coefficient tensor and the innovation covariance
  (\<^verbatim>\<open>S0 = np.eye(rank)\<close>, \<^verbatim>\<open>Psi0 = np.eye(rank * d)\<close>, \<^verbatim>\<open>M0 = np.zeros((rank * d, rank))\<close>):
  \<^verbatim>\<open>
  Z_mat = X[np.max(time_lags) : dim2, :]
  Q_mat = np.zeros((dim2 - np.max(time_lags), rank * d))
  for t in range(np.max(time_lags), dim2):
      Q_mat[t - np.max(time_lags), :] = X[t - time_lags, :].reshape([rank * d])
  var_Psi = inv(inv(Psi0) + np.matmul(Q_mat.T, Q_mat))
  var_M = np.matmul(var_Psi, np.matmul(inv(Psi0), M0) + np.matmul(Q_mat.T, Z_mat))
  var_S = (S0 + np.matmul(Z_mat.T, Z_mat) + np.matmul(np.matmul(M0.T, inv(Psi0)), M0)
           - np.matmul(np.matmul(var_M.T, inv(var_Psi)), var_M))
  Sigma = invwishart(df = nu0 + dim2 - np.max(time_lags), scale = var_S, seed = None).rvs()
  A = mat2ten(mnrnd(var_M, var_Psi, Sigma).T, np.array([rank, rank, d]), 0)
  \<close>
\<close>

definition lagged_rows :: "array \<Rightarrow> int \<Rightarrow> int list \<Rightarrow> nat \<Rightarrow> array option" where
  \<comment> \<open>\<^verbatim>\<open>X[t - time_lags, :].reshape([rank * d])\<close>\<close>
  "lagged_rows X t time_lags rank = do {
     picked \<leftarrow> take_rows X (map (\<lambda>l. t - l) time_lags);
     reshape_C picked [int (rank * length time_lags)]
   }"

definition sample_A ::
  "'g numlib \<Rightarrow> nat \<Rightarrow> int list \<Rightarrow> nat \<Rightarrow> array \<Rightarrow> 'g \<Rightarrow> ((array \<times> array) \<times> 'g) option" where
  "sample_A lib rank time_lags dim2 X g = do {
     let d = length time_lags;
     let nu0 = rank;
     let S0 = eye rank;
     let Psi0 = eye (rank * d);
     let M0 = zeros [rank * d, rank];
     mx \<leftarrow> np_max time_lags;
     Z_mat \<leftarrow> slice_rows X mx (int dim2);
     Q0 \<leftarrow> np_zeros [int dim2 - mx, int (rank * d)];
     Q_mat \<leftarrow> for_loop
       (\<lambda>t Q. do { v \<leftarrow> lagged_rows X t time_lags rank; set_row Q (t - mx) v })
       [mx..int dim2 - 1] Q0;
     inv_Psi0 \<leftarrow> linalg_inv lib Psi0;
     QQ \<leftarrow> matmul (transpose_array Q_mat) Q_mat;
     sumPsi \<leftarrow> add_arrays inv_Psi0 QQ;
     var_Psi \<leftarrow> linalg_inv lib sumPsi;
     inv_Psi0 \<leftarrow> linalg_inv lib Psi0;
     PM \<leftarrow> matmul inv_Psi0 M0;
     QZ \<leftarrow> matmul (transpose_array Q_mat) Z_mat;
     sumM \<leftarrow> add_arrays PM QZ;
     var_M \<leftarrow> matmul var_Psi sumM;
     ZZ \<leftarrow> matmul (transpose_array Z_mat) Z_mat;
     S1 \<leftarrow> add_arrays S0 ZZ;
     inv_Psi0 \<leftarrow> linalg_inv lib Psi0;
     MP \<leftarrow> matmul (transpose_array M0) inv_Psi0;
     MPM \<leftarrow> matmul MP M0;
     S2 \<leftarrow> add_arrays S1 MPM;
     inv_var_Psi \<leftarrow> linalg_inv lib var_Psi;
     VP \<leftarrow> matmul (transpose_array var_M) inv_var_Psi;
     VPV \<leftarrow> matmul VP var_M;
     var_S \<leftarrow> sub_arrays S2 VPV;
     (Sigma_x, g1) \<leftarrow> invwishart_rvs lib (int nu0 + int dim2 - mx) var_S g;
     (sample, g2) \<leftarrow> mnrnd lib var_M var_Psi Sigma_x g1;
     A \<leftarrow> mat2ten (transpose_array sample) [rank, rank, d] 0;
     Some ((A, Sigma_x), g2)
   }"

text \<open>
  The rows of the temporal matrix:
  \<^verbatim>\<open>
  Lambda_x = inv(Sigma)
  var1 = W.T
  var2 = kr_prod(var1, var1)
  var3 = tau * np.matmul(var2, binary_mat).reshape([rank, rank, dim2]) + np.dstack([Lambda_x] * dim2)
  var4 = tau * np.matmul(var1, sparse_mat)
  for t in range(dim2):
      Mt = np.zeros((rank, rank))
      Nt = np.zeros(rank)
      if t < np.max(time_lags):
          Qt = np.zeros(rank)
      else:
          Qt = np.matmul(Lambda_x, np.matmul(ten2mat(A, 0), X[t - time_lags, :].reshape([rank * d])))
      if t < dim2 - np.min(time_lags):
          if t >= np.max(time_lags) and t < dim2 - np.max(time_lags):
              index = list(range(0, d))
          else:
              index = list(np.where((t + time_lags >= np.max(time_lags)) & (t + time_lags < dim2)))[0]
          for k in index:
              Ak = A[:, :, k]
              Mt += np.matmul(np.matmul(Ak.T, Lambda_x), Ak)
              A0 = A.copy()
              A0[:, :, k] = 0
              var5 = (X[t + time_lags[k], :]
                      - np.matmul(ten2mat(A0, 0), X[t + time_lags[k] - time_lags, :].reshape([rank * d])))
              Nt += np.matmul(np.matmul(Ak.T, Lambda_x), var5)
      var_mu = var4[:, t] + Nt + Qt
      if t < np.max(time_lags):
          inv_var_Lambda = inv(var3[:, :, t] + Mt - Lambda_x + np.eye(rank))
      else:
          inv_var_Lambda = inv(var3[:, :, t] + Mt)
      X[t, :] = mvnrnd(np.matmul(inv_var_Lambda, var_mu), inv_var_Lambda)
  \<close>
\<close>

definition backward_term ::
  "nat \<Rightarrow> int list \<Rightarrow> array \<Rightarrow> array \<Rightarrow> array \<Rightarrow> nat \<Rightarrow> array option" where
  "backward_term rank time_lags A Lambda_x X t = do {
     mx \<leftarrow> np_max time_lags;
     if int t < mx then Some (zeros [rank])
     else do {
       A_unfold \<leftarrow> ten2mat A 0;
       v \<leftarrow> lagged_rows X (int t) time_lags rank;
       forecast \<leftarrow> matmul A_unfold v;
       matmul Lambda_x forecast
     }
   }"

definition forward_step ::
  "nat \<Rightarrow> int list \<Rightarrow> array \<Rightarrow> array \<Rightarrow> array \<Rightarrow> nat \<Rightarrow> nat \<Rightarrow> array \<times> array
     \<Rightarrow> (array \<times> array) option" where
  "forward_step rank time_lags A Lambda_x X t k MN = do {
     Ak \<leftarrow> slab A k;
     AL \<leftarrow> matmul (transpose_array Ak) Lambda_x;
     ALA \<leftarrow> matmul AL Ak;
     Mt \<leftarrow> add_arrays (fst MN) ALA;
     A0 \<leftarrow> zero_slab A k;
     target \<leftarrow> row X (int t + time_lags ! k);
     A0_unfold \<leftarrow> ten2mat A0 0;
     v \<leftarrow> lagged_rows X (int t + time_lags ! k) time_lags rank;
     others \<leftarrow> matmul A0_unfold v;
     var5 \<leftarrow> sub_arrays target others;
     AL \<leftarrow> matmul (transpose_array Ak) Lambda_x;
     ALv \<leftarrow> matmul AL var5;
     Nt \<leftarrow> add_arrays (snd MN) ALv;
     Some (Mt, Nt)
   }"

definition forward_terms ::
  "nat \<Rightarrow> int list \<Rightarrow> nat \<Rightarrow> array \<Rightarrow> array \<Rightarrow> array \<Rightarrow> nat \<Rightarrow> (array \<times> array) option" where
  "forward_terms rank time_lags dim2 A Lambda_x X t = do {
     index \<leftarrow> forward_index t dim2 time_lags;
     for_loop (forward_step rank time_lags A Lambda_x X t) index (zeros [rank, rank], zeros [rank])
   }"

definition temporal_precision ::
  "nat \<Rightarrow> int list \<Rightarrow> array \<Rightarrow> array \<Rightarrow> array \<Rightarrow> nat \<Rightarrow> array option" where
  "temporal_precision rank time_lags var3 Mt Lambda_x t = do {
     mx \<leftarrow> np_max time_lags;
     data_term \<leftarrow> slab var3 t;
     with_forward \<leftarrow> add_arrays data_term Mt;
     if int t < mx then do {
       without_prior \<leftarrow> sub_arrays with_forward Lambda_x;
       add_arrays without_prior (eye rank)
     } else Some with_forward
   }"

definition sample_X_row ::
  "'g numlib \<Rightarrow> nat \<Rightarrow> int list \<Rightarrow> nat \<Rightarrow> array \<Rightarrow> array \<Rightarrow> array \<Rightarrow> array \<Rightarrow> nat \<Rightarrow> nat
     \<Rightarrow> store \<times> 'g \<Rightarrow> (store \<times> 'g) option" where
  "sample_X_row lib rank time_lags dim2 A Lambda_x var3 var4 xref t hg = do {
     X \<leftarrow> deref (fst hg) xref;
     Qt \<leftarrow> backward_term rank time_lags A Lambda_x X t;
     (Mt, Nt) \<leftarrow> forward_terms rank time_lags dim2 A Lambda_x X t;
     data_mu \<leftarrow> column var4 t;
     mu1 \<leftarrow> add_arrays data_mu Nt;
     var_mu \<leftarrow> add_arrays mu1 Qt;
     precision \<leftarrow> temporal_precision rank time_lags var3 Mt Lambda_x t;
     (x, g') \<leftarrow> draw_row lib precision var_mu (snd hg);
     X' \<leftarrow> set_row X (int t) x;
     Some ((fst hg)[xref := X'], g')
   }"

definition sample_X ::
  "'g numlib \<Rightarrow> array \<Rightarrow> nat \<Rightarrow> int list \<Rightarrow> init_dict \<Rightarrow> real \<Rightarrow> array \<Rightarrow> array
     \<Rightarrow> store \<times> 'g \<Rightarrow> (store \<times> 'g) option" where
  "sample_X lib sparse_mat rank time_lags init tau_now A Sigma_x hg = do {
     let dim2 = shape sparse_mat ! 1;
     Lambda_x \<leftarrow> linalg_inv lib Sigma_x;
     W \<leftarrow> deref (fst hg) (init_W init);
     let var1 = transpose_array W;
     var2 \<leftarrow> kr_prod var1 var1;
     prod3 \<leftarrow> matmul var2 (binary_of sparse_mat);
     cube \<leftarrow> reshape_C prod3 [int rank, int rank, int dim2];
     stack \<leftarrow> dstack_copies Lambda_x dim2;
     var3 \<leftarrow> add_arrays (scalar_mul tau_now cube) stack;
     prod4 \<leftarrow> matmul var1 sparse_mat;
     let var4 = scalar_mul tau_now prod4;
     for_loop (sample_X_row lib rank time_lags dim2 A Lambda_x var3 var4 (init_X init)) [0..<dim2] hg
   }"

text \<open>
  The temporal matrix extended by the one-step-ahead row:
  \<^verbatim>\<open>
  X_new = np.zeros((dim2 + 1, rank))
  if iters + 1 > maxiter1 - maxiter2:
      X_new[0 : dim2, :] = X.copy()
      X_new[dim2, :] = np.matmul(ten2mat(A, 0), X_new[dim2 - time_lags, :].reshape([rank * d]))
  \<close>
\<close>

definition extend_X :: "nat \<Rightarrow> int list \<Rightarrow> nat \<Rightarrow> array \<Rightarrow> array \<Rightarrow> array option" where
  "extend_X rank time_lags dim2 A X = do {
     X_new \<leftarrow> set_leading_rows (zeros [dim2 + 1, rank]) dim2 X;
     A_unfold \<leftarrow> ten2mat A 0;
     v \<leftarrow> lagged_rows X_new (int dim2) time_lags rank;
     forecast \<leftarrow> matmul A_unfold v;
     set_row X_new (int dim2) forecast
   }"

text \<open>
  The precision of the observation noise (\<^verbatim>\<open>alpha = 1e-6\<close>, \<^verbatim>\<open>beta = 1e-6\<close>):
  \<^verbatim>\<open>
  tau = np.random.gamma(alpha + 0.5 * sparse_mat[position].shape[0],
                        1/(beta + 0.5 * np.sum((sparse_mat - mat_hat)[position] ** 2)))
  \<close>
\<close>

definition sample_tau :: "'g numlib \<Rightarrow> array \<Rightarrow> array \<Rightarrow> 'g \<Rightarrow> (real \<times> 'g) option" where
  "sample_tau lib sparse_mat mat_hat g = do {
     let alpha = 1 / 10 ^ 6;
     let beta = 1 / 10 ^ 6;
     let position = where_nonzero sparse_mat;
     residual \<leftarrow> sub_arrays sparse_mat mat_hat;
     random_gamma lib
       (alpha + 0.5 * real (length (take_at sparse_mat position)))
       (1 / (beta + 0.5 * (\<Sum>r\<leftarrow>take_at residual position. r ^ 2))) g
   }"

text \<open>
  The variables that live across iterations: the store holding \<open>W\<close> and \<open>X\<close>, the random
  generator, \<open>tau\<close>, the four accumulators, and the local variables \<open>A\<close> and \<open>X_new\<close>, which
  are unbound until the first iteration assigns them. (\<^verbatim>\<open>X_plus\<close> is allocated by the
  notebook and never used.)
\<close>

record 'g btmf_state =
  heap :: store
  rng :: 'g
  tau :: real
  W_plus :: array
  X_new_plus :: array
  A_plus :: array
  mat_hat_plus :: array
  var_A :: "array option"
  var_X_new :: "array option"

text \<open>The test \<^verbatim>\<open>iters + 1 > maxiter1 - maxiter2\<close> that opens the collection window.\<close>

definition collecting :: "int \<Rightarrow> int \<Rightarrow> int \<Rightarrow> bool" where
  "collecting maxiter1 maxiter2 iters \<longleftrightarrow> iters + 1 > maxiter1 - maxiter2"

text \<open>
  One pass of \<^verbatim>\<open>for iters in range(maxiter1)\<close>. The diagnostic \<^verbatim>\<open>rmse\<close> and the printing
  are left out: they read \<open>dense_mat\<close> and \<open>mat_hat\<close> and change nothing.
\<close>

definition btmf_iteration ::
  "'g numlib \<Rightarrow> array \<Rightarrow> init_dict \<Rightarrow> nat \<Rightarrow> int list \<Rightarrow> int \<Rightarrow> int \<Rightarrow> int
     \<Rightarrow> 'g btmf_state \<Rightarrow> 'g btmf_state option" where
  "btmf_iteration lib sparse_mat init rank time_lags maxiter1 maxiter2 iters s = do {
     let dim2 = shape sparse_mat ! 1;
     (h1, g1) \<leftarrow> sample_W lib sparse_mat rank init (tau s) (heap s, rng s);
     W \<leftarrow> deref h1 (init_W init);
     W_plus' \<leftarrow> (if collecting maxiter1 maxiter2 iters then add_arrays (W_plus s) W
                 else Some (W_plus s));
     X \<leftarrow> deref h1 (init_X init);
     ((A, Sigma_x), g2) \<leftarrow> sample_A lib rank time_lags dim2 X g1;
     A_plus' \<leftarrow> (if collecting maxiter1 maxiter2 iters then add_arrays (A_plus s) A
                 else Some (A_plus s));
     (h2, g3) \<leftarrow> sample_X lib sparse_mat rank time_lags init (tau s) A Sigma_x (h1, g2);
     W \<leftarrow> deref h2 (init_W init);
     X \<leftarrow> deref h2 (init_X init);
     mat_hat \<leftarrow> matmul W (transpose_array X);
     X_new \<leftarrow> (if collecting maxiter1 maxiter2 iters then extend_X rank time_lags dim2 A X
               else Some (zeros [dim2 + 1, rank]));
     X_new_plus' \<leftarrow> (if collecting maxiter1 maxiter2 iters then add_arrays (X_new_plus s) X_new
                     else Some (X_new_plus s));
     mat_hat_plus' \<leftarrow> (if collecting maxiter1 maxiter2 iters then do {
                         extended \<leftarrow> matmul W (transpose_array X_new);
                         add_arrays (mat_hat_plus s) extended }
                       else Some (mat_hat_plus s));
     (tau', g4) \<leftarrow> sample_tau lib sparse_mat mat_hat g3;
     Some \<lparr>heap = h2, rng = g4, tau = tau', W_plus = W_plus', X_new_plus = X_new_plus',
           A_plus = A_plus', mat_hat_plus = mat_hat_plus', var_A = Some A, var_X_new = Some X_new\<rparr>
   }"

text \<open>
  The state before the loop:
  \<^verbatim>\<open>
  tau = 1
  W_plus = np.zeros((dim1, rank))
  X_new_plus = np.zeros((dim2 + 1, rank))
  A_plus = np.zeros((rank, rank, d))
  mat_hat_plus = np.zeros((dim1, dim2 + 1))
  \<close>
\<close>

definition btmf_start :: "array \<Rightarrow> nat \<Rightarrow> int list \<Rightarrow> store \<times> 'g \<Rightarrow> 'g btmf_state" where
  "btmf_start sparse_mat rank time_lags hg =
     (let d = length time_lags; dim1 = shape sparse_mat ! 0; dim2 = shape sparse_mat ! 1 in
      \<lparr>heap = fst hg, rng = snd hg, tau = 1,
       W_plus = zeros [dim1, rank], X_new_plus = zeros [dim2 + 1, rank],
       A_plus = zeros [rank, rank, d], mat_hat_plus = zeros [dim1, dim2 + 1],
       var_A = None, var_X_new = None\<rparr>)"

definition btmf_loop ::
  "'g numlib \<Rightarrow> array \<Rightarrow> init_dict \<Rightarrow> nat \<Rightarrow> int list \<Rightarrow> int \<Rightarrow> int
     \<Rightarrow> 'g btmf_state \<Rightarrow> 'g btmf_state option" where
  "btmf_loop lib sparse_mat init rank time_lags maxiter1 maxiter2 =
     for_loop (btmf_iteration lib sparse_mat init rank time_lags maxiter1 maxiter2)
       [0..maxiter1 - 1]"

text \<open>
  The whole function. \<^verbatim>\<open>dim1, dim2 = sparse_mat.shape\<close> needs a matrix, and the mask
  \<^verbatim>\<open>pos\<close> of the held-out entries is computed from \<open>dense_mat\<close> and \<open>sparse_mat\<close> together.
  After the loop:
  \<^verbatim>\<open>
  W = W_plus/maxiter2
  X_new = X_new_plus/maxiter2
  A = A_plus/maxiter2
  mat_hat = mat_hat_plus/maxiter2
  ...
  return mat_hat, W, X_new, A
  \<close>
  The four quotients are new arrays: they are appended to the store and the function
  returns their references. Dividing by \<open>maxiter2 = 0\<close> gives entries that are not real
  numbers: \<open>None\<close>. The final report of MAPE and RMSE is left out.
\<close>

definition BTMF ::
  "'g numlib \<Rightarrow> array \<Rightarrow> array \<Rightarrow> init_dict \<Rightarrow> nat \<Rightarrow> int list \<Rightarrow> int \<Rightarrow> int
     \<Rightarrow> store \<times> 'g \<Rightarrow> ((nat \<times> nat \<times> nat \<times> nat) \<times> store \<times> 'g) option" where
  "BTMF lib dense_mat sparse_mat init rank time_lags maxiter1 maxiter2 hg =
     (if length (shape sparse_mat) = 2 \<and> shape dense_mat = shape sparse_mat
         \<and> init_W init < length (fst hg) \<and> init_X init < length (fst hg) then do {
        s \<leftarrow> btmf_loop lib sparse_mat init rank time_lags maxiter1 maxiter2
               (btmf_start sparse_mat rank time_lags hg);
        if maxiter2 = 0 then None
        else do {
          let W = scalar_div (W_plus s) (real_of_int maxiter2);
          let X_new = scalar_div (X_new_plus s) (real_of_int maxiter2);
          let A = scalar_div (A_plus s) (real_of_int maxiter2);
          let mat_hat = scalar_div (mat_hat_plus s) (real_of_int maxiter2);
          let n = length (heap s);
          Some ((n, n + 1, n + 2, n + 3), heap s @ [mat_hat, W, X_new, A], rng s)
        }
      } else None)"

subsection \<open>Symmetrising before factorising\<close>




subsection \<open>Stores that differ at given references only\<close>

text \<open>
  \<open>same_except refs h h'\<close>: the store \<open>h'\<close> has the arrays of \<open>h\<close> at every reference outside
  \<open>refs\<close>, and no array was added or removed.
\<close>

definition same_except :: "nat set \<Rightarrow> store \<Rightarrow> store \<Rightarrow> bool" where
  "same_except refs h h' \<longleftrightarrow> length h' = length h \<and> (\<forall>r. r \<notin> refs \<longrightarrow> h' ! r = h ! r)"

subsection \<open>A library instance for concrete runs\<close>

text \<open>
  To run the sampler on concrete inputs the library is instantiated with exact inversion
  of matrices up to \<open>2 \<times> 2\<close>, the Cholesky factor of the identity matrices of these
  sizes, and draws that return a fixed point of the distribution's support: the identity
  matrix for the Wishart and inverse Wishart distributions, the mean for the normal
  distribution, \<open>1/2\<close> for the uniform entries and \<open>1\<close> for the Gamma distribution. The
  generator state counts the draws.
\<close>

definition inv_upto_2 :: "array \<Rightarrow> array option" where
  "inv_upto_2 A =
     (if shape A = [1, 1] \<and> length (data A) = 1 then
        (if data A ! 0 = 0 then None else Some \<lparr>shape = [1, 1], data = [1 / data A ! 0]\<rparr>)
      else if shape A = [2, 2] \<and> length (data A) = 4 then
        (let a = data A ! 0; b = data A ! 1; c = data A ! 2; d = data A ! 3; det = a * d - b * c
         in if det = 0 then None
            else Some \<lparr>shape = [2, 2], data = [d / det, - b / det, - c / det, a / det]\<rparr>)
      else None)"

definition cholesky_of_identity :: "array \<Rightarrow> array option" where
  "cholesky_of_identity A = (if A = eye 1 \<or> A = eye 2 then Some A else None)"

definition fixed_draws :: "nat numlib" where
  "fixed_draws =
     \<lparr>linalg_inv = inv_upto_2,
      linalg_cholesky = cholesky_of_identity,
      wishart_rvs = (\<lambda>df scale g.
         if length (shape scale) = 2 then Some (eye (shape scale ! 0), Suc g) else None),
      invwishart_rvs = (\<lambda>df scale g.
         if length (shape scale) = 2 then Some (eye (shape scale ! 0), Suc g) else None),
      multivariate_normal = (\<lambda>mean cov g. Some (mean, Suc g)),
      random_rand = (\<lambda>d0 d1 g. (tabulate [d0, d1] (\<lambda>idx. 1 / 2), Suc g)),
      random_gamma = (\<lambda>shp scale g. Some (1, Suc g))\<rparr>"

definition example_sparse :: array where
  "example_sparse = \<lparr>shape = [1, 2], data = [0, 3]\<rparr>"

definition example_dense :: array where
  "example_dense = \<lparr>shape = [1, 2], data = [2, 3]\<rparr>"

definition example_store :: store where
  "example_store = [\<lparr>shape = [1, 2], data = [1, 2]\<rparr>, \<lparr>shape = [2, 2], data = [0, 0, 0, 0]\<rparr>]"

definition example_init :: init_dict where
  "example_init = \<lparr>init_W = 0, init_X = 1\<rparr>"


text \<open>
  The states of the run of \<open>BTMF\<close> on these inputs with rank 2, the single lag 1,
  \<open>maxiter1 = 2\<close> and \<open>maxiter2 = 1\<close>: before the loop, after the burn-in iteration and
  after the collected iteration.
\<close>

definition example_state_0 :: "nat btmf_state" where
  "example_state_0 =
     \<lparr>heap = [\<lparr>shape = [1, 2], data = [1, 2]\<rparr>,
          \<lparr>shape = [2, 2], data = [0, 0, 0, 0]\<rparr>],
       rng = 0, tau = 1, W_plus = zeros [1, 2],
       X_new_plus = zeros [3, 2],
       A_plus = zeros [2, 2, 1],
       mat_hat_plus = zeros [1, 3],
       var_A = None,
       var_X_new = None\<rparr>"

definition example_state_1 :: "nat btmf_state" where
  "example_state_1 =
     \<lparr>heap = [\<lparr>shape = [1, 2], data = [1 / 2, 1]\<rparr>,
          \<lparr>shape = [2, 2], data = [0, 0, 2 / 3, 4 / 3]\<rparr>],
       rng = 8, tau = 1, W_plus = zeros [1, 2],
       X_new_plus = zeros [3, 2],
       A_plus = zeros [2, 2, 1],
       mat_hat_plus = zeros [1, 3],
       var_A = Some \<lparr>shape = [2, 2, 1], data = [1 / 2, 1 / 2, 1 / 2, 1 / 2]\<rparr>,
       var_X_new = Some (zeros [3, 2])\<rparr>"

definition example_state_2 :: "nat btmf_state" where
  "example_state_2 =
     \<lparr>heap = [\<lparr>shape = [1, 2], data = [81 / 116, 81 / 58]\<rparr>,
          \<lparr>shape = [2, 2], data = [1 / 2, 1 / 2, 41477 / 46261, 119647 / 92522]\<rparr>],
       rng = 16, tau = 1, W_plus = \<lparr>shape = [1, 2], data = [81 / 116, 81 / 58]\<rparr>,
       X_new_plus = \<lparr>shape = [3, 2], data = [1 / 2, 1 / 2, 41477 / 46261, 119647 / 92522, 202601 / 185044, 202601 / 185044]\<rparr>,
       A_plus = \<lparr>shape = [2, 2, 1], data = [1 / 2, 1 / 2, 1 / 2, 1 / 2]\<rparr>,
       mat_hat_plus = \<lparr>shape = [1, 3], data = [243 / 232, 112509 / 46261, 49232043 / 21465104]\<rparr>,
       var_A = Some \<lparr>shape = [2, 2, 1], data = [1 / 2, 1 / 2, 1 / 2, 1 / 2]\<rparr>,
       var_X_new = Some \<lparr>shape = [3, 2], data = [1 / 2, 1 / 2, 41477 / 46261, 119647 / 92522, 202601 / 185044, 202601 / 185044]\<rparr>\<rparr>"

section \<open>Properties\<close>

subsection \<open>Flat positions and multi-indices\<close>

lemma ravel_C_less: "list_all2 (<) idx shp \<Longrightarrow> ravel_C shp idx < prod_list shp"
proof (induction idx shp rule: list_all2_induct)
  case Nil
  show ?case by simp
next
  case (Cons i idx s shp)
  have "i * prod_list shp + ravel_C shp idx < i * prod_list shp + prod_list shp"
    using Cons.IH by simp
  also have "\<dots> = Suc i * prod_list shp" by simp
  also have "\<dots> \<le> s * prod_list shp"
    using Cons.hyps(1) by (intro mult_le_mono1) simp
  finally show ?case by simp
qed

lemma unravel_ravel_C: "list_all2 (<) idx shp \<Longrightarrow> unravel_C shp (ravel_C shp idx) = idx"
proof (induction idx shp rule: list_all2_induct)
  case Nil
  show ?case by simp
next
  case (Cons i idx s shp)
  have r: "ravel_C shp idx < prod_list shp" using Cons.hyps(2) by (rule ravel_C_less)
  then show ?case using Cons.IH by simp
qed

lemma unravel_C_valid: "n < prod_list shp \<Longrightarrow> list_all2 (<) (unravel_C shp n) shp"
proof (induction shp arbitrary: n)
  case Nil
  show ?case by simp
next
  case (Cons s shp)
  have pos: "0 < prod_list shp" using Cons.prems by (cases "prod_list shp = 0") simp_all
  have "n div prod_list shp < s"
    using Cons.prems pos by (simp add: less_mult_imp_div_less mult.commute)
  moreover have "n mod prod_list shp < prod_list shp" using pos by simp
  ultimately show ?case using Cons.IH by simp
qed


lemma ravel_unravel_C: "n < prod_list shp \<Longrightarrow> ravel_C shp (unravel_C shp n) = n"
proof (induction shp arbitrary: n)
  case Nil
  then show ?case by simp
next
  case (Cons s shp)
  have pos: "0 < prod_list shp" using Cons.prems by (cases "prod_list shp = 0") simp_all
  have "ravel_C shp (unravel_C shp (n mod prod_list shp)) = n mod prod_list shp"
    using pos by (intro Cons.IH) simp
  then show ?case by simp
qed

lemma ravel_F_less: "list_all2 (<) idx shp \<Longrightarrow> ravel_F shp idx < prod_list shp"
proof (induction idx shp rule: list_all2_induct)
  case Nil
  show ?case by simp
next
  case (Cons i idx s shp)
  have "i + s * ravel_F shp idx < s + s * ravel_F shp idx" using Cons.hyps(1) by simp
  also have "\<dots> = s * Suc (ravel_F shp idx)" by simp
  also have "\<dots> \<le> s * prod_list shp"
    using Cons.IH by (intro mult_le_mono2) simp
  finally show ?case by simp
qed

lemma unravel_ravel_F: "list_all2 (<) idx shp \<Longrightarrow> unravel_F shp (ravel_F shp idx) = idx"
proof (induction idx shp rule: list_all2_induct)
  case Nil
  show ?case by simp
next
  case (Cons i idx s shp)
  then show ?case by simp
qed

lemma unravel_F_valid: "n < prod_list shp \<Longrightarrow> list_all2 (<) (unravel_F shp n) shp"
proof (induction shp arbitrary: n)
  case Nil
  show ?case by simp
next
  case (Cons s shp)
  have pos: "0 < s" using Cons.prems by (cases "s = 0") simp_all
  have "n div s < prod_list shp"
    using Cons.prems pos by (simp add: less_mult_imp_div_less mult.commute)
  then show ?case using Cons.IH pos by simp
qed

lemma ravel_unravel_F: "n < prod_list shp \<Longrightarrow> ravel_F shp (unravel_F shp n) = n"
proof (induction shp arbitrary: n)
  case Nil
  then show ?case by simp
next
  case (Cons s shp)
  have pos: "0 < s" using Cons.prems by (cases "s = 0") simp_all
  have "n div s < prod_list shp"
    using Cons.prems pos by (simp add: less_mult_imp_div_less mult.commute)
  then have "ravel_F shp (unravel_F shp (n div s)) = n div s" by (rule Cons.IH)
  then show ?case by simp
qed

lemma shape_tabulate [simp]: "shape (tabulate shp f) = shp"
  by (simp add: tabulate_def)

lemma wf_tabulate [simp]: "wf_array (tabulate shp f)"
  by (simp add: tabulate_def wf_array_def)

lemma item_tabulate: "list_all2 (<) idx shp \<Longrightarrow> item (tabulate shp f) idx = f idx"
  by (simp add: item_def tabulate_def ravel_C_less unravel_ravel_C)

lemma tabulate_item:
  assumes "wf_array A" and "\<And>idx. list_all2 (<) idx (shape A) \<Longrightarrow> f idx = item A idx"
  shows "tabulate (shape A) f = A"
proof -
  have "map (\<lambda>n. f (unravel_C (shape A) n)) [0..<prod_list (shape A)] = data A"
  proof (rule nth_equalityI)
    show "length (map (\<lambda>n. f (unravel_C (shape A) n)) [0..<prod_list (shape A)]) = length (data A)"
      using assms(1) by (simp add: wf_array_def)
  next
    fix n assume "n < length (map (\<lambda>n. f (unravel_C (shape A) n)) [0..<prod_list (shape A)])"
    then have n: "n < prod_list (shape A)" by simp
    then have "f (unravel_C (shape A) n) = item A (unravel_C (shape A) n)"
      by (intro assms(2) unravel_C_valid)
    also have "\<dots> = data A ! n" using n by (simp add: item_def ravel_unravel_C)
    finally show "map (\<lambda>n. f (unravel_C (shape A) n)) [0..<prod_list (shape A)] ! n = data A ! n"
      using n by simp
  qed
  then show ?thesis by (simp add: tabulate_def)
qed

subsection \<open>Folding undoes unfolding\<close>

lemma reshape_F_inverse:
  assumes "prod_list shp2 = prod_list shp1" and "list_all2 (<) idx shp1"
  shows "item (tabulate shp2 (\<lambda>idx2. g (unravel_F shp1 (ravel_F shp2 idx2))))
           (unravel_F shp2 (ravel_F shp1 idx)) = g idx"
proof -
  have lt: "ravel_F shp1 idx < prod_list shp2"
    using ravel_F_less [OF assms(2)] assms(1) by simp
  have "item (tabulate shp2 (\<lambda>idx2. g (unravel_F shp1 (ravel_F shp2 idx2))))
           (unravel_F shp2 (ravel_F shp1 idx))
        = g (unravel_F shp1 (ravel_F shp2 (unravel_F shp2 (ravel_F shp1 idx))))"
    by (rule item_tabulate) (rule unravel_F_valid [OF lt])
  also have "\<dots> = g idx"
    by (simp add: ravel_unravel_F [OF lt] unravel_ravel_F [OF assms(2)])
  finally show ?thesis .
qed

lemma idx3: "list_all2 (<) idx [a, b, c] \<longleftrightarrow> (\<exists>i j k. idx = [i, j, k] \<and> i < a \<and> j < b \<and> k < (c::nat))"
  by (auto simp: list_all2_Cons2)

lemma upt3: "[0..<3] = [0, Suc 0, Suc (Suc 0)]"
  by (simp add: upt_rec)

lemma fold_unfold_0:
  assumes wf: "wf_array T" and s: "shape T = [a, b, c]" and nz: "a \<noteq> 0"
  shows "ten2mat T (0) \<bind> (\<lambda>M. mat2ten M (shape T) (0)) = Some T"
proof -
  define moved where "moved = tabulate [a, b, c] (\<lambda>idx. item T [idx ! 0, idx ! Suc 0, idx ! Suc (Suc 0)])"
  define M where "M = tabulate [a, b * c]
    (\<lambda>idx. item moved (unravel_F [a, b, c] (ravel_F [a, b * c] idx)))"
  define folded where "folded = tabulate [a, b, c]
    (\<lambda>idx. item M (unravel_F [a, b * c] (ravel_F [a, b, c] idx)))"
  have 1: "moveaxis T (0) 0 = Some moved"
    by (simp add: moveaxis_def s upt3 transpose_axes_def axis_position_def moved_def)
  have 2: "reshape_F moved [int a, - 1] = Some M"
    using nz by (simp add: reshape_F_def fix_unknown_dimension_def moved_def M_def mult.assoc)
  have 3: "reshape_F M [int a, int b, int c] = Some folded"
    by (simp add: reshape_F_def fix_unknown_dimension_def M_def folded_def mult.assoc)
  have 4: "moveaxis folded 0 (0) = Some (tabulate [a, b, c] (\<lambda>idx. item folded [idx ! 0, idx ! Suc 0, idx ! Suc (Suc 0)]))"
    by (simp add: moveaxis_def upt3 transpose_axes_def axis_position_def folded_def)
  have "tabulate (shape T) (\<lambda>idx. item folded [idx ! 0, idx ! Suc 0, idx ! Suc (Suc 0)]) = T"
  proof (rule tabulate_item [OF wf])
    fix idx assume "list_all2 (<) idx (shape T)"
    then obtain i j k where idx: "idx = [i, j, k]" and v: "list_all2 (<) [i, j, k] [a, b, c]"
      unfolding s idx3 by auto
    have "item folded [i, j, k]
            = item M (unravel_F [a, b * c] (ravel_F [a, b, c] [i, j, k]))"
      unfolding folded_def by (rule item_tabulate [OF v])
    also have "\<dots> = item moved [i, j, k]"
      unfolding M_def by (rule reshape_F_inverse [OF _ v]) simp
    also have "\<dots> = item T [i, j, k]"
      unfolding moved_def by (simp add: item_tabulate [OF v])
    finally show "item folded [idx ! 0, idx ! Suc 0, idx ! Suc (Suc 0)] = item T idx" by (simp add: idx)
  qed
  then show ?thesis
    by (simp add: ten2mat_def mat2ten_def 1 2 3 4 s upt3)
qed

lemma fold_unfold_1:
  assumes wf: "wf_array T" and s: "shape T = [a, b, c]" and nz: "b \<noteq> 0"
  shows "ten2mat T (Suc 0) \<bind> (\<lambda>M. mat2ten M (shape T) (Suc 0)) = Some T"
proof -
  define moved where "moved = tabulate [b, a, c] (\<lambda>idx. item T [idx ! Suc 0, idx ! 0, idx ! Suc (Suc 0)])"
  define M where "M = tabulate [b, a * c]
    (\<lambda>idx. item moved (unravel_F [b, a, c] (ravel_F [b, a * c] idx)))"
  define folded where "folded = tabulate [b, a, c]
    (\<lambda>idx. item M (unravel_F [b, a * c] (ravel_F [b, a, c] idx)))"
  have 1: "moveaxis T (Suc 0) 0 = Some moved"
    by (simp add: moveaxis_def s upt3 transpose_axes_def axis_position_def moved_def)
  have 2: "reshape_F moved [int b, - 1] = Some M"
    using nz by (simp add: reshape_F_def fix_unknown_dimension_def moved_def M_def mult.assoc)
  have 3: "reshape_F M [int b, int a, int c] = Some folded"
    by (simp add: reshape_F_def fix_unknown_dimension_def M_def folded_def mult.assoc)
  have 4: "moveaxis folded 0 (Suc 0) = Some (tabulate [a, b, c] (\<lambda>idx. item folded [idx ! Suc 0, idx ! 0, idx ! Suc (Suc 0)]))"
    by (simp add: moveaxis_def upt3 transpose_axes_def axis_position_def folded_def)
  have "tabulate (shape T) (\<lambda>idx. item folded [idx ! Suc 0, idx ! 0, idx ! Suc (Suc 0)]) = T"
  proof (rule tabulate_item [OF wf])
    fix idx assume "list_all2 (<) idx (shape T)"
    then obtain i j k where idx: "idx = [i, j, k]" and v: "list_all2 (<) [j, i, k] [b, a, c]"
      unfolding s idx3 by auto
    have "item folded [j, i, k]
            = item M (unravel_F [b, a * c] (ravel_F [b, a, c] [j, i, k]))"
      unfolding folded_def by (rule item_tabulate [OF v])
    also have "\<dots> = item moved [j, i, k]"
      unfolding M_def by (rule reshape_F_inverse [OF _ v]) simp
    also have "\<dots> = item T [i, j, k]"
      unfolding moved_def by (simp add: item_tabulate [OF v])
    finally show "item folded [idx ! Suc 0, idx ! 0, idx ! Suc (Suc 0)] = item T idx" by (simp add: idx)
  qed
  then show ?thesis
    by (simp add: ten2mat_def mat2ten_def 1 2 3 4 s upt3)
qed

lemma fold_unfold_2:
  assumes wf: "wf_array T" and s: "shape T = [a, b, c]" and nz: "c \<noteq> 0"
  shows "ten2mat T (Suc (Suc 0)) \<bind> (\<lambda>M. mat2ten M (shape T) (Suc (Suc 0))) = Some T"
proof -
  define moved where "moved = tabulate [c, a, b] (\<lambda>idx. item T [idx ! Suc 0, idx ! Suc (Suc 0), idx ! 0])"
  define M where "M = tabulate [c, a * b]
    (\<lambda>idx. item moved (unravel_F [c, a, b] (ravel_F [c, a * b] idx)))"
  define folded where "folded = tabulate [c, a, b]
    (\<lambda>idx. item M (unravel_F [c, a * b] (ravel_F [c, a, b] idx)))"
  have 1: "moveaxis T (Suc (Suc 0)) 0 = Some moved"
    by (simp add: moveaxis_def s upt3 transpose_axes_def axis_position_def moved_def)
  have 2: "reshape_F moved [int c, - 1] = Some M"
    using nz by (simp add: reshape_F_def fix_unknown_dimension_def moved_def M_def mult.assoc)
  have 3: "reshape_F M [int c, int a, int b] = Some folded"
    by (simp add: reshape_F_def fix_unknown_dimension_def M_def folded_def mult.assoc)
  have 4: "moveaxis folded 0 (Suc (Suc 0)) = Some (tabulate [a, b, c] (\<lambda>idx. item folded [idx ! Suc (Suc 0), idx ! 0, idx ! Suc 0]))"
    by (simp add: moveaxis_def upt3 transpose_axes_def axis_position_def folded_def)
  have "tabulate (shape T) (\<lambda>idx. item folded [idx ! Suc (Suc 0), idx ! 0, idx ! Suc 0]) = T"
  proof (rule tabulate_item [OF wf])
    fix idx assume "list_all2 (<) idx (shape T)"
    then obtain i j k where idx: "idx = [i, j, k]" and v: "list_all2 (<) [k, i, j] [c, a, b]"
      unfolding s idx3 by auto
    have "item folded [k, i, j]
            = item M (unravel_F [c, a * b] (ravel_F [c, a, b] [k, i, j]))"
      unfolding folded_def by (rule item_tabulate [OF v])
    also have "\<dots> = item moved [k, i, j]"
      unfolding M_def by (rule reshape_F_inverse [OF _ v]) simp
    also have "\<dots> = item T [i, j, k]"
      unfolding moved_def by (simp add: item_tabulate [OF v])
    finally show "item folded [idx ! Suc (Suc 0), idx ! 0, idx ! Suc 0] = item T idx" by (simp add: idx)
  qed
  then show ?thesis
    by (simp add: ten2mat_def mat2ten_def 1 2 3 4 s upt3)
qed


lemma fold_unfold:
  assumes "wf_array T" and "length (shape T) = 3" and "mode < 3" and "shape T ! mode \<noteq> 0"
  shows "ten2mat T mode \<bind> (\<lambda>M. mat2ten M (shape T) mode) = Some T"
proof -
  obtain a b c where s: "shape T = [a, b, c]"
    using assms(2) by (auto simp: length_Suc_conv numeral_3_eq_3)
  consider "mode = 0" | "mode = Suc 0" | "mode = Suc (Suc 0)"
    using assms(3) by linarith
  then show ?thesis
  proof cases
    case 1
    then show ?thesis using fold_unfold_0 [OF assms(1) s] assms(4) s by simp
  next
    case 2
    then show ?thesis using fold_unfold_1 [OF assms(1) s] assms(4) s by simp
  next
    case 3
    then show ?thesis using fold_unfold_2 [OF assms(1) s] assms(4) s by simp
  qed
qed

text \<open>The three unfoldings of the notebook's example tensor, as the notebook prints them.\<close>

lemma ten2mat_notebook_example:
  fixes X :: "int ndarray"
  defines "X \<equiv> \<lparr>shape = [3, 2, 4], data =
     [1, 2, 3, 4, 3, 4, 5, 6, 5, 6, 7, 8, 7, 8, 9, 10, 9, 10, 11, 12, 11, 12, 13, 14]\<rparr>"
  shows "ten2mat X 0 = Some \<lparr>shape = [3, 8], data =
           [1, 3, 2, 4, 3, 5, 4, 6, 5, 7, 6, 8, 7, 9, 8, 10, 9, 11, 10, 12, 11, 13, 12, 14]\<rparr>"
    and "ten2mat X 1 = Some \<lparr>shape = [2, 12], data =
           [1, 5, 9, 2, 6, 10, 3, 7, 11, 4, 8, 12, 3, 7, 11, 4, 8, 12, 5, 9, 13, 6, 10, 14]\<rparr>"
    and "ten2mat X 2 = Some \<lparr>shape = [4, 6], data =
           [1, 5, 9, 3, 7, 11, 2, 6, 10, 4, 8, 12, 3, 7, 11, 5, 9, 13, 4, 8, 12, 6, 10, 14]\<rparr>"
  unfolding X_def by code_simp+

text \<open>
  C4 (as amended). For every 3-way tensor \<open>T\<close> and every mode \<open>m\<close> in \<open>{0, 1, 2}\<close> whose
  axis is not empty (\<open>shape(T)[m] \<noteq> 0\<close>), \<open>mat2ten(ten2mat(T, m), shape(T), m)\<close> returns
  exactly \<open>T\<close>.
\<close>

theorem mat2ten_ten2mat_roundtrip:
  "wf_array T \<and> length (shape T) = 3 \<and> mode < 3 \<and> shape T ! mode \<noteq> 0 \<longrightarrow>
     ten2mat T mode \<bind> (\<lambda>M. mat2ten M (shape T) mode) = Some T"
  using fold_unfold by blast

theorem mat2ten_ten2mat_roundtrip_witness:
  "wf_array \<lparr>shape = [2, 1, 2], data = [1, 2, 3, 4::real]\<rparr> \<and>
   ten2mat \<lparr>shape = [2, 1, 2], data = [1, 2, 3, 4::real]\<rparr> 2
     \<bind> (\<lambda>M. mat2ten M [2, 1, 2] 2) = Some \<lparr>shape = [2, 1, 2], data = [1, 2, 3, 4]\<rparr>"
  using mat2ten_ten2mat_roundtrip [of "\<lparr>shape = [2, 1, 2], data = [1, 2, 3, 4::real]\<rparr>" 2]
  by (simp add: wf_array_def)

text \<open>
  When the unfolded axis is empty the inferred length of \<^verbatim>\<open>-1\<close> is undetermined and the
  unfolding raises: here a tensor of shape \<open>(0, 1, 1)\<close>, unfolded along mode 0.
\<close>

theorem mat2ten_ten2mat_empty_axis_counterexample:
  "wf_array \<lparr>shape = [0, 1, 1], data = ([]::real list)\<rparr> \<and>
   ten2mat \<lparr>shape = [0, 1, 1], data = ([]::real list)\<rparr> 0
     \<bind> (\<lambda>M. mat2ten M [0, 1, 1] 0) = None"
  by (simp add: wf_array_def ten2mat_def moveaxis_def reshape_F_def fix_unknown_dimension_def)

subsection \<open>Maximum and minimum of a list\<close>





subsection \<open>The inclusion rule of the forward terms\<close>





subsection \<open>Shapes and entries of the array operations\<close>



lemma idx2: "list_all2 (<) idx [a, b] \<longleftrightarrow> (\<exists>i j. idx = [i, j] \<and> i < a \<and> j < (b::nat))"
  by (auto simp: list_all2_Cons2)

lemma shape_zeros [simp]: "shape (zeros shp) = shp"
  by (simp add: zeros_def)

lemma wf_zeros [simp]: "wf_array (zeros shp)"
  by (simp add: zeros_def wf_array_def)

lemma item_zeros: "list_all2 (<) idx shp \<Longrightarrow> item (zeros shp) idx = 0"
  by (simp add: item_def zeros_def ravel_C_less)

lemma shape_scalar_div [simp]: "shape (scalar_div A c) = shape A"
  by (simp add: scalar_div_def)

lemma shape_scalar_mul [simp]: "shape (scalar_mul c A) = shape A"
  by (simp add: scalar_mul_def)

lemma wf_scalar_div [simp]: "wf_array (scalar_div A c) = wf_array A"
  by (simp add: scalar_div_def wf_array_def)

lemma item_scalar_div:
  "wf_array A \<Longrightarrow> list_all2 (<) idx (shape A) \<Longrightarrow> item (scalar_div A c) idx = item A idx / c"
  by (simp add: item_def scalar_div_def wf_array_def ravel_C_less)

lemma add_arrays_shape: "add_arrays A B = Some C \<Longrightarrow> shape C = shape A \<and> shape B = shape A"
  by (auto simp: add_arrays_def split: if_splits)

lemma add_arrays_wf: "add_arrays A B = Some C \<Longrightarrow> wf_array A \<Longrightarrow> wf_array B \<Longrightarrow> wf_array C"
  by (auto simp: add_arrays_def wf_array_def split: if_splits)

lemma item_add_arrays:
  assumes "add_arrays A B = Some C" and "wf_array A" and "wf_array B"
    and "list_all2 (<) idx (shape A)"
  shows "item C idx = item A idx + item B idx"
proof -
  have s: "shape B = shape A" and C: "C = \<lparr>shape = shape A, data = map2 (+) (data A) (data B)\<rparr>"
    using assms(1) by (auto simp: add_arrays_def split: if_splits)
  have "ravel_C (shape A) idx < prod_list (shape A)" using assms(4) by (rule ravel_C_less)
  then show ?thesis using assms(2,3) s by (simp add: C item_def wf_array_def)
qed

lemma sub_arrays_shape: "sub_arrays A B = Some C \<Longrightarrow> shape C = shape A \<and> shape B = shape A"
  by (auto simp: sub_arrays_def split: if_splits)

lemma item_sub_arrays:
  assumes "sub_arrays A B = Some C" and "wf_array A" and "wf_array B"
    and "list_all2 (<) idx (shape A)"
  shows "item C idx = item A idx - item B idx"
proof -
  have s: "shape B = shape A" and C: "C = \<lparr>shape = shape A, data = map2 (-) (data A) (data B)\<rparr>"
    using assms(1) by (auto simp: sub_arrays_def split: if_splits)
  have "ravel_C (shape A) idx < prod_list (shape A)" using assms(4) by (rule ravel_C_less)
  then show ?thesis using assms(2,3) s by (simp add: C item_def wf_array_def)
qed

lemma upt2: "[0..<2] = [0, Suc 0]"
  by (simp add: upt_rec)

lemma shape_transpose_array2:
  "shape A = [r, c] \<Longrightarrow> shape (transpose_array A) = [c, r]"
  by (simp add: transpose_array_def transpose_axes_def upt2)

lemma item_transpose_array2:
  assumes "shape A = [r, c]" and "i < c" and "j < r"
  shows "item (transpose_array A) [i, j] = item A [j, i]"
proof -
  have "list_all2 (<) [i, j] [c, r]" using assms by simp
  then show ?thesis
    by (simp add: transpose_array_def transpose_axes_def upt2 assms(1) item_tabulate axis_position_def)
qed

lemma matmul_matrix:
  assumes "matmul A B = Some C" and "shape A = [m, n]" and "shape B = [n', p]"
  shows "n' = n" and "shape C = [m, p]" and "wf_array C"
    and "i < m \<Longrightarrow> j < p \<Longrightarrow> item C [i, j] = (\<Sum>k\<leftarrow>[0..<n]. item A [i, k] * item B [k, j])"
proof -
  show n: "n' = n" using assms by (auto simp: matmul_def split: if_splits)
  have C: "C = tabulate [m, p] (\<lambda>idx. \<Sum>k\<leftarrow>[0..<n]. item A [idx ! 0, k] * item B [k, idx ! 1])"
    using assms n by (auto simp: matmul_def split: if_splits)
  show "shape C = [m, p]" and "wf_array C" by (simp_all add: C)
  show "item C [i, j] = (\<Sum>k\<leftarrow>[0..<n]. item A [i, k] * item B [k, j])" if "i < m" "j < p"
  proof -
    have "list_all2 (<) [i, j] [m, p]" using that by simp
    then show ?thesis unfolding C by (simp add: item_tabulate)
  qed
qed

subsection \<open>The noise of the matrix normal draw\<close>

lemma eye_1: "eye 1 = \<lparr>shape = [1, 1], data = [1]\<rparr>"
  by (simp add: eye_def tabulate_def)

lemma transpose_eye_1: "transpose_array (eye 1) = eye 1"
  by code_simp

text \<open>
  C2. At mean \<open>[[m]]\<close> and covariances \<open>U = V = [[1]]\<close>, whose Cholesky factor is \<open>[[1]]\<close>,
  \<open>mnrnd\<close> returns \<open>m\<close> plus the entry \<open>z\<close> that \<^verbatim>\<open>np.random.rand\<close> drew: a number of
  \<open>[m, m + 1)\<close>, never below the mean. The noise is uniform, not standard normal.
\<close>

theorem mnrnd_noise_is_uniform_draw:
  assumes "random_rand lib 1 1 g = (\<lparr>shape = [1, 1], data = [z]\<rparr>, g')"
    and "0 \<le> z" and "z < 1"
    and "linalg_cholesky lib (eye 1) = Some (eye 1)"
  shows "mnrnd lib \<lparr>shape = [1, 1], data = [m]\<rparr> (eye 1) (eye 1) g
           = Some (\<lparr>shape = [1, 1], data = [m + z]\<rparr>, g')
         \<and> m \<le> m + z \<and> m + z < m + 1"
proof -
  have 1: "matmul (eye 1) \<lparr>shape = [1, 1], data = [z]\<rparr> = Some \<lparr>shape = [1, 1], data = [z]\<rparr>"
    unfolding eye_1 by (simp add: matmul_def tabulate_def item_def)
  have 2: "matmul \<lparr>shape = [1, 1], data = [z]\<rparr> (eye 1) = Some \<lparr>shape = [1, 1], data = [z]\<rparr>"
    unfolding eye_1 by (simp add: matmul_def tabulate_def item_def)
  have 3: "add_arrays \<lparr>shape = [1, 1], data = [m]\<rparr> \<lparr>shape = [1, 1], data = [z]\<rparr>
             = Some \<lparr>shape = [1, 1], data = [m + z]\<rparr>"
    by (simp add: add_arrays_def)
  have "mnrnd lib \<lparr>shape = [1, 1], data = [m]\<rparr> (eye 1) (eye 1) g
           = Some (\<lparr>shape = [1, 1], data = [m + z]\<rparr>, g')"
    unfolding mnrnd_def by (simp del: One_nat_def add: assms(1,4) 1 2 3 transpose_eye_1)
  then show ?thesis using assms(2,3) by simp
qed

theorem mnrnd_noise_is_uniform_draw_witness:
  "random_rand fixed_draws 1 1 0 = (\<lparr>shape = [1, 1], data = [1 / 2]\<rparr>, Suc 0)
   \<and> linalg_cholesky fixed_draws (eye 1) = Some (eye 1)
   \<and> mnrnd fixed_draws \<lparr>shape = [1, 1], data = [0]\<rparr> (eye 1) (eye 1) 0
           = Some (\<lparr>shape = [1, 1], data = [1 / 2]\<rparr>, Suc 0)"
proof -
  have r: "random_rand fixed_draws 1 1 0 = (\<lparr>shape = [1, 1], data = [1 / 2]\<rparr>, Suc 0)"
    by (simp add: fixed_draws_def tabulate_def)
  have c: "linalg_cholesky fixed_draws (eye 1) = Some (eye 1)"
    by (simp add: fixed_draws_def cholesky_of_identity_def)
  show ?thesis
    using mnrnd_noise_is_uniform_draw [OF r _ _ c, of 0] r c by simp
qed

subsection \<open>No symmetrisation\<close>





subsection \<open>Loops\<close>

lemma for_loop_append:
  "for_loop body (xs @ ys) s = for_loop body xs s \<bind> for_loop body ys"
  by (induction xs arbitrary: s) (simp_all split: bind_splits)

lemma for_loop_invariant:
  assumes "for_loop body xs s = Some s'" and "P s"
    and "\<And>x s s'. x \<in> set xs \<Longrightarrow> P s \<Longrightarrow> body x s = Some s' \<Longrightarrow> P s'"
  shows "P s'"
  using assms
proof (induction xs arbitrary: s)
  case Nil
  then show ?case by simp
next
  case (Cons x xs)
  from Cons.prems(1) obtain s1 where 1: "body x s = Some s1" and 2: "for_loop body xs s1 = Some s'"
    by (auto simp: bind_eq_Some_conv)
  have s1: "P s1" using Cons.prems(3) [OF _ Cons.prems(2) 1] by simp
  show ?case
  proof (rule Cons.IH [OF 2 s1])
    fix y t t' assume "y \<in> set xs" "P t" "body y t = Some t'"
    then show "P t'" using Cons.prems(3) [of y t t'] by simp
  qed
qed

subsection \<open>The edge policy of the temporal rows\<close>

lemma matmul_wf: "matmul A B = Some C \<Longrightarrow> wf_array C"
  by (auto simp: matmul_def split: if_splits)

lemma shape_eye [simp]: "shape (eye n) = [n, n]"
  by (simp add: eye_def)










subsection \<open>What one iteration does\<close>

lemma btmf_iteration_SomeE:
  assumes "btmf_iteration lib sparse_mat init rank time_lags maxiter1 maxiter2 iters s = Some s'"
  obtains h1 g1 W1 X1 A Sigma_x g2 g3 W X mat_hat X_new where
    "sample_W lib sparse_mat rank init (tau s) (heap s, rng s) = Some (h1, g1)"
    "deref h1 (init_W init) = Some W1"
    "(if collecting maxiter1 maxiter2 iters then add_arrays (W_plus s) W1 else Some (W_plus s))
       = Some (W_plus s')"
    "deref h1 (init_X init) = Some X1"
    "sample_A lib rank time_lags (shape sparse_mat ! 1) X1 g1 = Some ((A, Sigma_x), g2)"
    "(if collecting maxiter1 maxiter2 iters then add_arrays (A_plus s) A else Some (A_plus s))
       = Some (A_plus s')"
    "sample_X lib sparse_mat rank time_lags init (tau s) A Sigma_x (h1, g2) = Some (heap s', g3)"
    "deref (heap s') (init_W init) = Some W"
    "deref (heap s') (init_X init) = Some X"
    "matmul W (transpose_array X) = Some mat_hat"
    "(if collecting maxiter1 maxiter2 iters then extend_X rank time_lags (shape sparse_mat ! 1) A X
      else Some (zeros [shape sparse_mat ! 1 + 1, rank])) = Some X_new"
    "(if collecting maxiter1 maxiter2 iters then add_arrays (X_new_plus s) X_new
      else Some (X_new_plus s)) = Some (X_new_plus s')"
    "(if collecting maxiter1 maxiter2 iters
      then matmul W (transpose_array X_new) \<bind> add_arrays (mat_hat_plus s)
      else Some (mat_hat_plus s)) = Some (mat_hat_plus s')"
    "sample_tau lib sparse_mat mat_hat g3 = Some (tau s', rng s')"
    "var_A s' = Some A" "var_X_new s' = Some X_new"
  using assms unfolding btmf_iteration_def Let_def
  by (auto simp: bind_eq_Some_conv split: prod.splits)

subsection \<open>The states of a run\<close>

lemma for_loop_trace:
  assumes "for_loop body xs s0 = Some s'"
  obtains st where "st 0 = s0" and "st (length xs) = s'"
    and "\<And>k. k < length xs \<Longrightarrow> body (xs ! k) (st k) = Some (st (Suc k))"
  using assms
proof (induction xs arbitrary: s0 thesis)
  case Nil
  show ?case by (rule Nil.prems(1) [of "\<lambda>_. s0"]) (use Nil.prems(2) in simp_all)
next
  case (Cons x xs)
  from Cons.prems(2) obtain s1 where 1: "body x s0 = Some s1" and 2: "for_loop body xs s1 = Some s'"
    by (auto simp: bind_eq_Some_conv)
  from Cons.IH [OF _ 2] obtain st where st: "st 0 = s1" "st (length xs) = s'"
    "\<And>k. k < length xs \<Longrightarrow> body (xs ! k) (st k) = Some (st (Suc k))"
    by blast
  show ?case
  proof (rule Cons.prems(1) [of "\<lambda>k. case k of 0 \<Rightarrow> s0 | Suc j \<Rightarrow> st j"])
    fix k assume "k < length (x # xs)"
    then show "body ((x # xs) ! k) (case k of 0 \<Rightarrow> s0 | Suc j \<Rightarrow> st j)
                 = Some (case Suc k of 0 \<Rightarrow> s0 | Suc j \<Rightarrow> st j)"
      using 1 st by (cases k) simp_all
  qed (simp_all add: st)
qed

lemma range_length: "length [0..m - 1] = nat m"
  by simp

lemma range_nth: "k < nat m \<Longrightarrow> [0..m - 1] ! k = int k"
  by (simp add: nth_upto)

lemma BTMF_SomeE:
  assumes "BTMF lib dense_mat sparse_mat init rank time_lags maxiter1 maxiter2 (h, g)
             = Some (refs, h', g')"
  obtains st where
    "length (shape sparse_mat) = 2" and "shape dense_mat = shape sparse_mat"
    and "init_W init < length h" and "init_X init < length h" and "maxiter2 \<noteq> 0"
    and "st 0 = btmf_start sparse_mat rank time_lags (h, g)"
    and "\<And>k. k < nat maxiter1 \<Longrightarrow>
           btmf_iteration lib sparse_mat init rank time_lags maxiter1 maxiter2 (int k) (st k)
             = Some (st (Suc k))"
    and "refs = (length (heap (st (nat maxiter1))), length (heap (st (nat maxiter1))) + 1,
                 length (heap (st (nat maxiter1))) + 2, length (heap (st (nat maxiter1))) + 3)"
    and "h' = heap (st (nat maxiter1)) @
               [scalar_div (mat_hat_plus (st (nat maxiter1))) (real_of_int maxiter2),
                scalar_div (W_plus (st (nat maxiter1))) (real_of_int maxiter2),
                scalar_div (X_new_plus (st (nat maxiter1))) (real_of_int maxiter2),
                scalar_div (A_plus (st (nat maxiter1))) (real_of_int maxiter2)]"
    and "g' = rng (st (nat maxiter1))"
proof -
  from assms have pre: "length (shape sparse_mat) = 2" "shape dense_mat = shape sparse_mat"
    "init_W init < length h" "init_X init < length h"
    by (auto simp: BTMF_def split: if_splits)
  from assms pre obtain s where
    loop: "for_loop (btmf_iteration lib sparse_mat init rank time_lags maxiter1 maxiter2)
             [0..maxiter1 - 1] (btmf_start sparse_mat rank time_lags (h, g)) = Some s"
    and m2: "maxiter2 \<noteq> 0"
    and out: "refs = (length (heap s), length (heap s) + 1, length (heap s) + 2, length (heap s) + 3)"
      "h' = heap s @ [scalar_div (mat_hat_plus s) (real_of_int maxiter2),
                      scalar_div (W_plus s) (real_of_int maxiter2),
                      scalar_div (X_new_plus s) (real_of_int maxiter2),
                      scalar_div (A_plus s) (real_of_int maxiter2)]"
      "g' = rng s"
    by (auto simp: BTMF_def btmf_loop_def bind_eq_Some_conv Let_def split: if_splits)
  from for_loop_trace [OF loop] obtain st where st: "st 0 = btmf_start sparse_mat rank time_lags (h, g)"
    "st (length [0..maxiter1 - 1]) = s"
    "\<And>k. k < length [0..maxiter1 - 1] \<Longrightarrow>
       btmf_iteration lib sparse_mat init rank time_lags maxiter1 maxiter2 ([0..maxiter1 - 1] ! k) (st k)
         = Some (st (Suc k))"
    by blast
  have s: "st (nat maxiter1) = s" using st(2) by (simp only: range_length)
  have step: "btmf_iteration lib sparse_mat init rank time_lags maxiter1 maxiter2 (int k) (st k)
         = Some (st (Suc k))" if "k < nat maxiter1" for k
    using st(3) [of k] that by (simp only: range_length range_nth)
  show ?thesis
    by (rule that [of st]) (use pre m2 st(1) step out s in simp_all)
qed

subsection \<open>Assigning and reading rows\<close>


lemma norm_index_nat [simp]: "k < n \<Longrightarrow> norm_index n (int k) = Some k"
  by (simp add: norm_index_def)

lemma set_row_SomeE:
  assumes "set_row A i v = Some A'"
  obtains r n c where "shape A = [n, c]" and "shape v = [c]" and "norm_index n i = Some r"
    and "A' = tabulate [n, c] (\<lambda>idx. if idx ! 0 = r then item v [idx ! 1] else item A idx)"
proof -
  from assms have len: "length (shape A) = 2" and v: "shape v = [shape A ! 1]"
    by (auto simp: set_row_def split: if_splits)
  then obtain n c where s: "shape A = [n, c]"
    by (auto simp: length_Suc_conv numeral_2_eq_2)
  from assms s v obtain r where "norm_index n i = Some r"
    and "A' = tabulate [n, c] (\<lambda>idx. if idx ! 0 = r then item v [idx ! 1] else item A idx)"
    by (auto simp: set_row_def bind_eq_Some_conv)
  then show ?thesis using that s v by simp
qed


lemma set_row_wf: "set_row A i v = Some A' \<Longrightarrow> wf_array A'"
  by (erule set_row_SomeE) simp



subsection \<open>What the sweeps change in the store\<close>

lemma sample_W_row_store:
  assumes "sample_W_row lib var3 var4 wref i hg = Some hg'"
  obtains precision var_mu w W W' where "slab var3 i = Some precision" and "column var4 i = Some var_mu"
    and "draw_row lib precision var_mu (snd hg) = Some (w, snd hg')"
    and "deref (fst hg) wref = Some W" and "set_row W (int i) w = Some W'"
    and "fst hg' = (fst hg)[wref := W']"
  using assms unfolding sample_W_row_def
  by (auto simp: bind_eq_Some_conv split: prod.splits)

lemma sample_X_row_store:
  assumes "sample_X_row lib rank time_lags dim2 A Lambda_x var3 var4 xref t hg = Some hg'"
  obtains precision var_mu x X X' where
    "draw_row lib precision var_mu (snd hg) = Some (x, snd hg')"
    and "deref (fst hg) xref = Some X" and "set_row X (int t) x = Some X'"
    and "fst hg' = (fst hg)[xref := X']"
  using assms unfolding sample_X_row_def
  by (auto simp: bind_eq_Some_conv split: prod.splits)

lemma same_except_refl [simp]: "same_except refs h h"
  by (simp add: same_except_def)


lemma same_except_update: "same_except R h h1 \<Longrightarrow> r \<in> R \<Longrightarrow> same_except R h (h1[r := a])"
  unfolding same_except_def by (metis length_list_update nth_list_update_neq)



lemma sample_X_loop_frame:
  assumes "for_loop (sample_X_row lib rank time_lags dim2 A Lambda_x var3 var4 xref) xs hg = Some hg'"
  shows "same_except {xref} (fst hg) (fst hg')"
proof (rule for_loop_invariant [OF assms, where P = "\<lambda>s. same_except {xref} (fst hg) (fst s)"])
  fix x s s'
  assume "same_except {xref} (fst hg) (fst s)"
    "sample_X_row lib rank time_lags dim2 A Lambda_x var3 var4 xref x s = Some s'"
  then show "same_except {xref} (fst hg) (fst s')"
    by (elim sample_X_row_store) (simp add: same_except_update)
qed simp

lemma sample_X_frame:
  assumes "sample_X lib sparse_mat rank time_lags init tau_now A Sigma_x (h, g) = Some (h', g')"
  shows "same_except {init_X init} h h'"
proof -
  from assms obtain Lambda_x var3 var4 where
    "for_loop (sample_X_row lib rank time_lags (shape sparse_mat ! 1) A Lambda_x var3 var4 (init_X init))
       [0..<shape sparse_mat ! 1] (h, g) = Some (h', g')"
    unfolding sample_X_def Let_def by (auto simp: bind_eq_Some_conv split: prod.splits)
  from sample_X_loop_frame [OF this] show ?thesis by simp
qed


subsection \<open>A run of two iterations\<close>

text \<open>
  The sampler on a \<open>1 \<times> 2\<close> matrix with rank 2 and the single lag 1, for two iterations of
  which the second is collected, with the library instance \<open>fixed_draws\<close>. Each sweep is
  evaluated on its own and the results are chained.
\<close>

lemma example_start:
  "btmf_start example_sparse 2 [1] (example_store, 0::nat)
   = example_state_0"
  by (simp add: btmf_start_def example_sparse_def example_store_def example_state_0_def)

lemma example_dims:
  "shape example_sparse ! 1 = 2" "shape example_sparse ! 1 + 1 = 3"
  "length (shape example_sparse) = 2" "shape example_dense = shape example_sparse"
  by (simp_all add: example_sparse_def example_dense_def)

lemma example_sample_W_0:
  "sample_W fixed_draws example_sparse 2 example_init 1
     ([\<lparr>shape = [1, 2], data = [1, 2]\<rparr>, \<lparr>shape = [2, 2], data = [0, 0, 0, 0]\<rparr>], 0)
   = Some ([\<lparr>shape = [1, 2], data = [1 / 2, 1]\<rparr>, \<lparr>shape = [2, 2], data = [0, 0, 0, 0]\<rparr>], 3)"
  by code_simp

lemma example_sample_A_0:
  "sample_A fixed_draws 2 [1] 2 \<lparr>shape = [2, 2], data = [0, 0, 0, 0]\<rparr> 3
   = Some ((\<lparr>shape = [2, 2, 1], data = [1 / 2, 1 / 2, 1 / 2, 1 / 2]\<rparr>,
            \<lparr>shape = [2, 2], data = [1, 0, 0, 1]\<rparr>), 5)"
  by code_simp

lemma example_sample_X_0:
  "sample_X fixed_draws example_sparse 2 [1] example_init 1
     \<lparr>shape = [2, 2, 1], data = [1 / 2, 1 / 2, 1 / 2, 1 / 2]\<rparr> \<lparr>shape = [2, 2], data = [1, 0, 0, 1]\<rparr>
     ([\<lparr>shape = [1, 2], data = [1 / 2, 1]\<rparr>, \<lparr>shape = [2, 2], data = [0, 0, 0, 0]\<rparr>], 5)
   = Some ([\<lparr>shape = [1, 2], data = [1 / 2, 1]\<rparr>,
            \<lparr>shape = [2, 2], data = [0, 0, 2 / 3, 4 / 3]\<rparr>], 7)"
  by code_simp

lemma example_mat_hat_0:
  "matmul \<lparr>shape = [1, 2], data = [1 / 2, 1]\<rparr>
     (transpose_array \<lparr>shape = [2, 2], data = [0, 0, 2 / 3, 4 / 3]\<rparr>)
   = Some \<lparr>shape = [1, 2], data = [0, 5 / 3]\<rparr>"
  by code_simp

lemma example_sample_tau_0:
  "sample_tau fixed_draws example_sparse \<lparr>shape = [1, 2], data = [0, 5 / 3]\<rparr> 7 = Some (1, 8)"
  by code_simp

lemma example_deref:
  "deref [a, b] (init_W example_init) = Some a" "deref [a, b] (init_X example_init) = Some b"
  by (simp_all add: deref_def example_init_def)

lemma example_iteration_0:
  "btmf_iteration fixed_draws example_sparse example_init 2 [1] 2 1 0
     example_state_0
   = Some example_state_1"
proof -
  have c: "collecting 2 1 0 = False" by (simp add: collecting_def)
  have n3: "(2::nat) + 1 = 3" by simp
  show ?thesis
    unfolding btmf_iteration_def example_state_0_def example_state_1_def
    by (simp only: Let_def n3 btmf_state.select_convs example_dims c if_False bind.bind_lunit
        prod.case example_sample_W_0 example_sample_A_0 example_sample_X_0 example_mat_hat_0
        example_sample_tau_0 example_deref)
qed

lemma example_sample_W_1:
  "sample_W fixed_draws example_sparse 2 example_init 1
     ([\<lparr>shape = [1, 2], data = [1 / 2, 1]\<rparr>, \<lparr>shape = [2, 2], data = [0, 0, 2 / 3, 4 / 3]\<rparr>], 8)
   = Some ([\<lparr>shape = [1, 2], data = [81 / 116, 81 / 58]\<rparr>, \<lparr>shape = [2, 2], data = [0, 0, 2 / 3, 4 / 3]\<rparr>], 11)"
  by code_simp

lemma example_sample_A_1:
  "sample_A fixed_draws 2 [1] 2 \<lparr>shape = [2, 2], data = [0, 0, 2 / 3, 4 / 3]\<rparr> 11
   = Some ((\<lparr>shape = [2, 2, 1], data = [1 / 2, 1 / 2, 1 / 2, 1 / 2]\<rparr>,
            \<lparr>shape = [2, 2], data = [1, 0, 0, 1]\<rparr>), 13)"
  by code_simp

lemma example_sample_X_1:
  "sample_X fixed_draws example_sparse 2 [1] example_init 1
     \<lparr>shape = [2, 2, 1], data = [1 / 2, 1 / 2, 1 / 2, 1 / 2]\<rparr> \<lparr>shape = [2, 2], data = [1, 0, 0, 1]\<rparr>
     ([\<lparr>shape = [1, 2], data = [81 / 116, 81 / 58]\<rparr>, \<lparr>shape = [2, 2], data = [0, 0, 2 / 3, 4 / 3]\<rparr>], 13)
   = Some ([\<lparr>shape = [1, 2], data = [81 / 116, 81 / 58]\<rparr>,
            \<lparr>shape = [2, 2], data = [1 / 2, 1 / 2, 41477 / 46261, 119647 / 92522]\<rparr>], 15)"
  by code_simp

lemma example_mat_hat_1:
  "matmul \<lparr>shape = [1, 2], data = [81 / 116, 81 / 58]\<rparr>
     (transpose_array \<lparr>shape = [2, 2], data = [1 / 2, 1 / 2, 41477 / 46261, 119647 / 92522]\<rparr>)
   = Some \<lparr>shape = [1, 2], data = [243 / 232, 112509 / 46261]\<rparr>"
  by code_simp

lemma example_extend_X_1:
  "extend_X 2 [1] 2 \<lparr>shape = [2, 2, 1], data = [1 / 2, 1 / 2, 1 / 2, 1 / 2]\<rparr>
     \<lparr>shape = [2, 2], data = [1 / 2, 1 / 2, 41477 / 46261, 119647 / 92522]\<rparr>
   = Some \<lparr>shape = [3, 2], data = [1 / 2, 1 / 2, 41477 / 46261, 119647 / 92522, 202601 / 185044, 202601 / 185044]\<rparr>"
  by code_simp

lemma example_extended_1:
  "matmul \<lparr>shape = [1, 2], data = [81 / 116, 81 / 58]\<rparr>
     (transpose_array \<lparr>shape = [3, 2], data = [1 / 2, 1 / 2, 41477 / 46261, 119647 / 92522, 202601 / 185044, 202601 / 185044]\<rparr>)
   = Some \<lparr>shape = [1, 3], data = [243 / 232, 112509 / 46261, 49232043 / 21465104]\<rparr>"
  by code_simp

lemma example_sample_tau_1:
  "sample_tau fixed_draws example_sparse \<lparr>shape = [1, 2], data = [243 / 232, 112509 / 46261]\<rparr> 15 = Some (1, 16)"
  by code_simp

lemma example_accumulate_1:
  "add_arrays (zeros [1, 2]) \<lparr>shape = [1, 2], data = [81 / 116, 81 / 58]\<rparr> = Some \<lparr>shape = [1, 2], data = [81 / 116, 81 / 58]\<rparr>"
  "add_arrays (zeros [2, 2, 1]) \<lparr>shape = [2, 2, 1], data = [1 / 2, 1 / 2, 1 / 2, 1 / 2]\<rparr> = Some \<lparr>shape = [2, 2, 1], data = [1 / 2, 1 / 2, 1 / 2, 1 / 2]\<rparr>"
  "add_arrays (zeros [3, 2]) \<lparr>shape = [3, 2], data = [1 / 2, 1 / 2, 41477 / 46261, 119647 / 92522, 202601 / 185044, 202601 / 185044]\<rparr>
     = Some \<lparr>shape = [3, 2], data = [1 / 2, 1 / 2, 41477 / 46261, 119647 / 92522, 202601 / 185044, 202601 / 185044]\<rparr>"
  "add_arrays (zeros [1, 3]) \<lparr>shape = [1, 3], data = [243 / 232, 112509 / 46261, 49232043 / 21465104]\<rparr>
     = Some \<lparr>shape = [1, 3], data = [243 / 232, 112509 / 46261, 49232043 / 21465104]\<rparr>"
  by code_simp+

lemma example_iteration_1:
  "btmf_iteration fixed_draws example_sparse example_init 2 [1] 2 1 1
     example_state_1
   = Some example_state_2"
proof -
  have c: "collecting 2 1 1 = True" by (simp add: collecting_def)
  show ?thesis
    unfolding btmf_iteration_def example_state_1_def example_state_2_def
    by (simp only: Let_def btmf_state.select_convs example_dims c if_True bind.bind_lunit
        prod.case example_sample_W_1 example_sample_A_1 example_sample_X_1 example_mat_hat_1
        example_extend_X_1 example_extended_1 example_accumulate_1
        example_sample_tau_1 example_deref)
qed

lemma example_run:
  "BTMF fixed_draws example_dense example_sparse example_init 2 [1] 2 1 (example_store, 0)
   = Some ((2, 3, 4, 5),
       [\<lparr>shape = [1, 2], data = [81 / 116, 81 / 58]\<rparr>,
        \<lparr>shape = [2, 2], data = [1 / 2, 1 / 2, 41477 / 46261, 119647 / 92522]\<rparr>,
        \<lparr>shape = [1, 3], data = [243 / 232, 112509 / 46261, 49232043 / 21465104]\<rparr>,
        \<lparr>shape = [1, 2], data = [81 / 116, 81 / 58]\<rparr>,
        \<lparr>shape = [3, 2], data = [1 / 2, 1 / 2, 41477 / 46261, 119647 / 92522, 202601 / 185044, 202601 / 185044]\<rparr>,
        \<lparr>shape = [2, 2, 1], data = [1 / 2, 1 / 2, 1 / 2, 1 / 2]\<rparr>],
       16)"
proof -
  have r: "[0..(2::int) - 1] = [0, 1]" by (simp add: upto.simps)
  have i: "init_W example_init < length example_store"
    "init_X example_init < length example_store"
    by (simp_all add: example_init_def example_store_def)
  have loop: "btmf_loop fixed_draws example_sparse example_init 2 [1] 2 1
      (btmf_start example_sparse 2 [1] (example_store, 0))
    = Some example_state_2"
    unfolding btmf_loop_def r example_start
    by (simp only: for_loop.simps example_iteration_0 example_iteration_1 bind.bind_lunit)
  show ?thesis
    unfolding BTMF_def loop
    by (simp add: example_dims i scalar_div_def example_state_2_def)
qed

subsection \<open>The posterior of the noise precision\<close>

lemma set_indices: "set (indices shp) = {idx. list_all2 (<) idx shp}"
proof (intro set_eqI iffI)
  fix idx assume "idx \<in> set (indices shp)"
  then show "idx \<in> {idx. list_all2 (<) idx shp}"
    by (auto simp: indices_def unravel_C_valid)
next
  fix idx assume "idx \<in> {idx. list_all2 (<) idx shp}"
  then have v: "list_all2 (<) idx shp" by simp
  have "unravel_C shp (ravel_C shp idx) = idx" "ravel_C shp idx < prod_list shp"
    using v by (simp_all add: unravel_ravel_C ravel_C_less)
  then show "idx \<in> set (indices shp)"
    unfolding indices_def by (metis atLeast0LessThan image_eqI lessThan_iff set_map set_upt)
qed

lemma distinct_indices: "distinct (indices shp)"
proof -
  have "inj_on (unravel_C shp) {0..<prod_list shp}"
    by (rule inj_on_inverseI [where g = "ravel_C shp"]) (simp add: ravel_unravel_C)
  then show ?thesis by (simp add: indices_def distinct_map)
qed

lemma shape_transpose_array: "shape (transpose_array A) = rev (shape A)"
  by (simp add: transpose_array_def transpose_axes_def rev_map [symmetric] map_nth)

lemma pair_index_image:
  "{idx. list_all2 (<) idx [dim1, dim2] \<and> Q idx}
     = (\<lambda>(i, j). [i, j]) ` {(i, j). i < dim1 \<and> j < (dim2::nat) \<and> Q [i, j]}"
proof (intro set_eqI iffI)
  fix idx assume "idx \<in> {idx. list_all2 (<) idx [dim1, dim2] \<and> Q idx}"
  then have "list_all2 (<) idx [dim1, dim2]" and Q: "Q idx" by simp_all
  then obtain i j where "idx = [i, j]" "i < dim1" "j < dim2"
    unfolding idx2 by blast
  with Q have "idx = [i, j]" "i < dim1" "j < dim2" "Q [i, j]" by simp_all
  then have "(i, j) \<in> {(i, j). i < dim1 \<and> j < dim2 \<and> Q [i, j]}"
    and "idx = (\<lambda>(i, j). [i, j]) (i, j)" by simp_all
  then show "idx \<in> (\<lambda>(i, j). [i, j]) ` {(i, j). i < dim1 \<and> j < dim2 \<and> Q [i, j]}"
    by (rule rev_image_eqI)
next
  fix idx assume "idx \<in> (\<lambda>(i, j). [i, j]) ` {(i, j). i < dim1 \<and> j < dim2 \<and> Q [i, j]}"
  then show "idx \<in> {idx. list_all2 (<) idx [dim1, dim2] \<and> Q idx}" by auto
qed

lemma inj_pair_index: "inj_on (\<lambda>(i, j). [i, j]) S"
  by (auto simp: inj_on_def)

lemma sample_tau_posterior:
  assumes sh: "shape sparse_mat = [dim1, dim2]" and wf: "wf_array sparse_mat"
    and mh: "matmul W (transpose_array X) = Some mat_hat"
    and run: "sample_tau lib sparse_mat mat_hat g = Some r"
  shows "random_gamma lib
           (1 / 10 ^ 6 + 1 / 2 * real (card {(i, j). i < dim1 \<and> j < dim2 \<and> item sparse_mat [i, j] \<noteq> 0}))
           (1 / (1 / 10 ^ 6 + 1 / 2 *
              (\<Sum>(i, j) \<in> {(i, j). i < dim1 \<and> j < dim2 \<and> item sparse_mat [i, j] \<noteq> 0}.
                 (item sparse_mat [i, j] - (\<Sum>k\<leftarrow>[0..<shape W ! 1]. item W [i, k] * item X [j, k])) ^ 2)))
           g = Some r"
proof -
  let ?obs = "{(i, j). i < dim1 \<and> j < dim2 \<and> item sparse_mat [i, j] \<noteq> 0}"
  let ?pos = "where_nonzero sparse_mat"
  from run obtain residual where res: "sub_arrays sparse_mat mat_hat = Some residual"
    and gam: "random_gamma lib
       (1 / 10 ^ 6 + 0.5 * real (length (take_at sparse_mat ?pos)))
       (1 / (1 / 10 ^ 6 + 0.5 * (\<Sum>r\<leftarrow>take_at residual ?pos. r ^ 2))) g = Some r"
    by (auto simp: sample_tau_def bind_eq_Some_conv Let_def)
  have smh: "shape mat_hat = [dim1, dim2]" using sub_arrays_shape [OF res] sh by simp
  have wfmh: "wf_array mat_hat" using matmul_wf [OF mh] .
  \<comment> \<open>the two factors are matrices with a common number of columns\<close>
  have "length (shape W) = 2" "length (shape (transpose_array X)) = 2"
    using mh smh by (auto simp: matmul_def split: if_splits)
  then obtain m n n' p where sW: "shape W = [m, n]" and sXT: "shape (transpose_array X) = [n', p]"
    by (auto simp: length_Suc_conv numeral_2_eq_2)
  note mm = matmul_matrix [OF mh sW sXT]
  have dims: "m = dim1" "p = dim2" "n' = n" using mm(1,2) smh by simp_all
  have sX: "shape X = [dim2, n]"
    using sXT dims by (simp add: shape_transpose_array rev_eq_Cons_iff)
  have entry: "item mat_hat [i, j] = (\<Sum>k\<leftarrow>[0..<shape W ! 1]. item W [i, k] * item X [j, k])"
    if "i < dim1" "j < dim2" for i j
  proof -
    have "item mat_hat [i, j] = (\<Sum>k\<leftarrow>[0..<n]. item W [i, k] * item (transpose_array X) [k, j])"
      using mm(4) [of i j] that dims by simp
    also have "\<dots> = (\<Sum>k\<leftarrow>[0..<n]. item W [i, k] * item X [j, k])"
      using that by (intro arg_cong [where f = sum_list] map_cong refl)
        (simp add: item_transpose_array2 [OF sX])
    finally show ?thesis by (simp add: sW)
  qed
  have dpos: "distinct ?pos" by (simp add: where_nonzero_def distinct_indices)
  have spos: "set ?pos = (\<lambda>(i, j). [i, j]) ` ?obs"
    unfolding where_nonzero_def sh set_filter set_indices
    using pair_index_image [of dim1 dim2 "\<lambda>idx. item sparse_mat idx \<noteq> 0"] by simp
  have count: "length (take_at sparse_mat ?pos) = card ?obs"
  proof -
    have "length (take_at sparse_mat ?pos) = card (set ?pos)"
      using dpos by (simp add: take_at_def distinct_card)
    also have "\<dots> = card ?obs" unfolding spos by (rule card_image) (rule inj_pair_index)
    finally show ?thesis .
  qed
  have sse: "(\<Sum>r\<leftarrow>take_at residual ?pos. r ^ 2)
      = (\<Sum>(i, j) \<in> ?obs. (item sparse_mat [i, j]
           - (\<Sum>k\<leftarrow>[0..<shape W ! 1]. item W [i, k] * item X [j, k])) ^ 2)"
  proof -
    have "(\<Sum>r\<leftarrow>take_at residual ?pos. r ^ 2) = (\<Sum>idx\<leftarrow>?pos. (item residual idx) ^ 2)"
      by (simp add: take_at_def comp_def)
    also have "\<dots> = (\<Sum>idx \<in> set ?pos. (item residual idx) ^ 2)"
      using dpos by (rule sum_list_distinct_conv_sum_set)
    also have "\<dots> = (\<Sum>ij \<in> ?obs. (item residual (case ij of (i, j) \<Rightarrow> [i, j])) ^ 2)"
      unfolding spos by (subst sum.reindex [OF inj_pair_index]) (simp add: comp_def)
    also have "\<dots> = (\<Sum>(i, j) \<in> ?obs. (item sparse_mat [i, j]
           - (\<Sum>k\<leftarrow>[0..<shape W ! 1]. item W [i, k] * item X [j, k])) ^ 2)"
    proof (rule sum.cong [OF refl], clarify)
      fix i j assume "i < dim1" "j < dim2"
      then have v: "list_all2 (<) [i, j] (shape sparse_mat)" by (simp add: sh)
      show "(item residual [i, j])\<^sup>2 = (item sparse_mat [i, j]
           - (\<Sum>k\<leftarrow>[0..<shape W ! 1]. item W [i, k] * item X [j, k]))\<^sup>2"
        using item_sub_arrays [OF res wf wfmh v] entry [OF \<open>i < dim1\<close> \<open>j < dim2\<close>] by simp
    qed
    finally show ?thesis .
  qed
  show ?thesis using gam unfolding count sse by simp
qed

text \<open>
  C7. The iteration ends by drawing \<open>tau\<close> from \<^verbatim>\<open>np.random.gamma(shape, scale)\<close> with
  shape \<open>1e-6 + 0.5 * n\<close>, where \<open>n\<close> counts the non-zero entries of \<open>sparse_mat\<close>, and scale
  the reciprocal of the rate \<open>1e-6 + 0.5 * S\<close>, where \<open>S\<close> sums the squares of
  \<open>sparse_mat - W X\<^sup>T\<close> over these entries, for the \<open>W\<close> and \<open>X\<close> the iteration leaves in the
  store.
\<close>

theorem tau_gamma_posterior:
  assumes "btmf_iteration lib sparse_mat init rank time_lags maxiter1 maxiter2 iters s = Some s'"
    and "shape sparse_mat = [dim1, dim2]" and "wf_array sparse_mat"
  shows "\<exists>W X g. deref (heap s') (init_W init) = Some W \<and> deref (heap s') (init_X init) = Some X \<and>
     random_gamma lib
       (1 / 10 ^ 6 + 1 / 2 * real (card {(i, j). i < dim1 \<and> j < dim2 \<and> item sparse_mat [i, j] \<noteq> 0}))
       (1 / (1 / 10 ^ 6 + 1 / 2 *
          (\<Sum>(i, j) \<in> {(i, j). i < dim1 \<and> j < dim2 \<and> item sparse_mat [i, j] \<noteq> 0}.
             (item sparse_mat [i, j] - (\<Sum>k\<leftarrow>[0..<shape W ! 1]. item W [i, k] * item X [j, k])) ^ 2)))
       g = Some (tau s', rng s')"
proof -
  from assms(1) obtain W X mat_hat g3 where
    W: "deref (heap s') (init_W init) = Some W" and X: "deref (heap s') (init_X init) = Some X"
    and mh: "matmul W (transpose_array X) = Some mat_hat"
    and run: "sample_tau lib sparse_mat mat_hat g3 = Some (tau s', rng s')"
    by (rule btmf_iteration_SomeE)
  show ?thesis
    using W X sample_tau_posterior [OF assms(2,3) mh run] by (intro exI [of _ W] exI [of _ X] exI [of _ g3]) simp
qed

theorem tau_gamma_posterior_witness:
  "btmf_iteration fixed_draws example_sparse example_init 2 [1] 2 1 1 example_state_1
     = Some example_state_2
   \<and> shape example_sparse = [1, 2] \<and> wf_array example_sparse
   \<and> (\<exists>W X g. deref (heap example_state_2) (init_W example_init) = Some W
        \<and> deref (heap example_state_2) (init_X example_init) = Some X
        \<and> random_gamma fixed_draws
             (1 / 10 ^ 6 + 1 / 2 * real (card {(i, j). i < 1 \<and> j < 2 \<and> item example_sparse [i, j] \<noteq> 0}))
             (1 / (1 / 10 ^ 6 + 1 / 2 *
                (\<Sum>(i, j) \<in> {(i, j). i < 1 \<and> j < 2 \<and> item example_sparse [i, j] \<noteq> 0}.
                   (item example_sparse [i, j]
                      - (\<Sum>k\<leftarrow>[0..<shape W ! 1]. item W [i, k] * item X [j, k])) ^ 2)))
             g = Some (tau example_state_2, rng example_state_2))"
proof -
  have sh: "shape example_sparse = [1, 2]" and wf: "wf_array example_sparse"
    by (simp_all add: example_sparse_def wf_array_def)
  from tau_gamma_posterior [OF example_iteration_1 sh wf] example_iteration_1 sh wf
  show ?thesis by (intro conjI)
qed

subsection \<open>Shapes of the outputs and the forecast row\<close>









subsection \<open>No validation at entry\<close>












subsection \<open>Accumulators of the collecting window\<close>

subsection \<open>Burn-in and collection\<close>

lemma deref_same_except:
  assumes "same_except R h h'" and "r \<notin> R"
  shows "deref h' r = deref h r"
  using assms by (simp add: same_except_def deref_def)

lemma btmf_iteration_accumulates:
  assumes it: "btmf_iteration lib sparse_mat init rank time_lags maxiter1 maxiter2 iters s = Some s'"
    and neq: "init_W init \<noteq> init_X init"
  shows "collecting maxiter1 maxiter2 iters \<Longrightarrow>
      \<exists>W A X X_new extended.
        deref (heap s') (init_W init) = Some W \<and> deref (heap s') (init_X init) = Some X \<and>
        var_A s' = Some A \<and> var_X_new s' = Some X_new \<and>
        extend_X rank time_lags (shape sparse_mat ! 1) A X = Some X_new \<and>
        matmul W (transpose_array X_new) = Some extended \<and>
        add_arrays (W_plus s) W = Some (W_plus s') \<and>
        add_arrays (A_plus s) A = Some (A_plus s') \<and>
        add_arrays (X_new_plus s) X_new = Some (X_new_plus s') \<and>
        add_arrays (mat_hat_plus s) extended = Some (mat_hat_plus s')"
    and "\<not> collecting maxiter1 maxiter2 iters \<Longrightarrow>
      W_plus s' = W_plus s \<and> A_plus s' = A_plus s \<and> X_new_plus s' = X_new_plus s \<and>
      mat_hat_plus s' = mat_hat_plus s"
proof -
  from it obtain h1 g1 W1 X1 A Sigma_x g2 g3 W X mat_hat X_new where
    sW: "sample_W lib sparse_mat rank init (tau s) (heap s, rng s) = Some (h1, g1)"
    and W1: "deref h1 (init_W init) = Some W1"
    and aW: "(if collecting maxiter1 maxiter2 iters then add_arrays (W_plus s) W1 else Some (W_plus s))
       = Some (W_plus s')"
    and aA: "(if collecting maxiter1 maxiter2 iters then add_arrays (A_plus s) A else Some (A_plus s))
       = Some (A_plus s')"
    and sX: "sample_X lib sparse_mat rank time_lags init (tau s) A Sigma_x (h1, g2) = Some (heap s', g3)"
    and W: "deref (heap s') (init_W init) = Some W"
    and X: "deref (heap s') (init_X init) = Some X"
    and eX: "(if collecting maxiter1 maxiter2 iters then extend_X rank time_lags (shape sparse_mat ! 1) A X
      else Some (zeros [shape sparse_mat ! 1 + 1, rank])) = Some X_new"
    and aX: "(if collecting maxiter1 maxiter2 iters then add_arrays (X_new_plus s) X_new
      else Some (X_new_plus s)) = Some (X_new_plus s')"
    and aM: "(if collecting maxiter1 maxiter2 iters
      then matmul W (transpose_array X_new) \<bind> add_arrays (mat_hat_plus s)
      else Some (mat_hat_plus s)) = Some (mat_hat_plus s')"
    and vA: "var_A s' = Some A" and vX: "var_X_new s' = Some X_new"
    by (rule btmf_iteration_SomeE)
  have "deref (heap s') (init_W init) = deref h1 (init_W init)"
    using sample_X_frame [OF sX] neq by (intro deref_same_except) auto
  then have WW: "W1 = W" using W W1 by simp
  show "\<exists>W A X X_new extended.
        deref (heap s') (init_W init) = Some W \<and> deref (heap s') (init_X init) = Some X \<and>
        var_A s' = Some A \<and> var_X_new s' = Some X_new \<and>
        extend_X rank time_lags (shape sparse_mat ! 1) A X = Some X_new \<and>
        matmul W (transpose_array X_new) = Some extended \<and>
        add_arrays (W_plus s) W = Some (W_plus s') \<and>
        add_arrays (A_plus s) A = Some (A_plus s') \<and>
        add_arrays (X_new_plus s) X_new = Some (X_new_plus s') \<and>
        add_arrays (mat_hat_plus s) extended = Some (mat_hat_plus s')"
    if c: "collecting maxiter1 maxiter2 iters"
  proof -
    from aM c obtain extended where "matmul W (transpose_array X_new) = Some extended"
      "add_arrays (mat_hat_plus s) extended = Some (mat_hat_plus s')"
      by (auto simp: bind_eq_Some_conv)
    then show ?thesis using c W X vA vX eX aW aA aX WW by auto
  qed
  show "W_plus s' = W_plus s \<and> A_plus s' = A_plus s \<and> X_new_plus s' = X_new_plus s \<and>
      mat_hat_plus s' = mat_hat_plus s" if "\<not> collecting maxiter1 maxiter2 iters"
    using that aW aA aX aM by simp
qed

lemma collected_iterations:
  assumes "0 < maxiter2" and "maxiter2 \<le> maxiter1"
  shows "{k. k < nat maxiter1 \<and> collecting maxiter1 maxiter2 (int k)}
           = {nat (maxiter1 - maxiter2)..<nat maxiter1}"
    and "card {nat (maxiter1 - maxiter2)..<nat maxiter1} = nat maxiter2"
  using assms by (auto simp: collecting_def)


lemma for_loop_last:
  assumes "for_loop body xs s = Some s'" and "xs \<noteq> []"
    and "\<And>x s s'. x \<in> set xs \<Longrightarrow> body x s = Some s' \<Longrightarrow> Q s'"
  shows "Q s'"
proof -
  from assms(2) obtain ys z where xs: "xs = ys @ [z]" by (cases xs rule: rev_cases) auto
  from assms(1) obtain s1 where "body z s1 = Some s'"
    unfolding xs for_loop_append by (auto simp: bind_eq_Some_conv)
  then show ?thesis using assms(3) [of z s1 s'] xs by simp
qed

lemma moveaxis_wf: "moveaxis A source destination = Some B \<Longrightarrow> wf_array B"
  by (auto simp: moveaxis_def transpose_axes_def Let_def split: if_splits)

lemma mat2ten_wf: "mat2ten mat tensor_size mode = Some T \<Longrightarrow> wf_array T"
  by (auto simp: mat2ten_def Let_def bind_eq_Some_conv split: if_splits dest: moveaxis_wf)

lemma sample_A_wf:
  assumes "sample_A lib rank time_lags dim2 X g = Some ((A, Sigma_x), g')"
  shows "wf_array A"
proof -
  from assms obtain M where "mat2ten M [rank, rank, length time_lags] 0 = Some A"
    unfolding sample_A_def Let_def by (auto simp: bind_eq_Some_conv split: prod.splits)
  then show ?thesis by (rule mat2ten_wf)
qed

lemma extend_X_wf: "extend_X rank time_lags dim2 A X = Some X_new \<Longrightarrow> wf_array X_new"
  by (auto simp: extend_X_def bind_eq_Some_conv dest: set_row_wf)

lemma sample_W_row_wf:
  assumes "sample_W_row lib var3 var4 wref i hg = Some hg'"
  shows "wf_array (fst hg' ! wref)"
proof -
  from assms obtain w W W' where "deref (fst hg) wref = Some W" "set_row W (int i) w = Some W'"
    "fst hg' = (fst hg)[wref := W']"
    by (rule sample_W_row_store)
  then show ?thesis by (auto simp: deref_def split: if_splits dest: set_row_wf)
qed

lemma sample_W_wf:
  assumes "sample_W lib sparse_mat rank init tau_now (h, g) = Some (h', g')"
    and "0 < shape sparse_mat ! 0"
  shows "wf_array (h' ! init_W init)"
proof -
  from assms(1) obtain var3 var4 g2 where
    loop: "for_loop (sample_W_row lib var3 var4 (init_W init)) [0..<shape sparse_mat ! 0] (h, g2)
             = Some (h', g')"
    unfolding sample_W_def Let_def by (auto simp: bind_eq_Some_conv split: prod.splits)
  have "wf_array (fst (h', g') ! init_W init)"
    by (rule for_loop_last [OF loop]) (use assms(2) sample_W_row_wf in auto)
  then show ?thesis by simp
qed

lemma btmf_iteration_W_wf:
  assumes it: "btmf_iteration lib sparse_mat init rank time_lags maxiter1 maxiter2 iters s = Some s'"
    and neq: "init_W init \<noteq> init_X init" and pos: "0 < shape sparse_mat ! 0"
  shows "wf_array (heap s' ! init_W init)"
proof -
  from it obtain h1 g1 A Sigma_x g2 g3 where
    sW: "sample_W lib sparse_mat rank init (tau s) (heap s, rng s) = Some (h1, g1)"
    and sX: "sample_X lib sparse_mat rank time_lags init (tau s) A Sigma_x (h1, g2) = Some (heap s', g3)"
    by (rule btmf_iteration_SomeE)
  have "heap s' ! init_W init = h1 ! init_W init"
    using sample_X_frame [OF sX] neq by (simp add: same_except_def)
  then show ?thesis using sample_W_wf [OF sW pos] by simp
qed

lemma accumulated_sum:
  fixes acc x :: "nat \<Rightarrow> array"
  assumes start: "acc 0 = zeros shp"
    and step: "\<And>k. k < n \<Longrightarrow>
       (if c k then add_arrays (acc k) (x k) = Some (acc (Suc k)) \<and> wf_array (x k)
        else acc (Suc k) = acc k)"
    and idx: "list_all2 (<) idx shp"
    and m: "m \<le> n"
  shows "wf_array (acc m) \<and> shape (acc m) = shp
       \<and> item (acc m) idx = (\<Sum>k | k < m \<and> c k. item (x k) idx)"
  using m
proof (induction m)
  case 0
  show ?case using idx by (simp add: start item_zeros)
next
  case (Suc m)
  then have mn: "m < n" and IH: "wf_array (acc m)" "shape (acc m) = shp"
    "item (acc m) idx = (\<Sum>k | k < m \<and> c k. item (x k) idx)"
    by simp_all
  show ?case
  proof (cases "c m")
    case True
    then have add: "add_arrays (acc m) (x m) = Some (acc (Suc m))" and wf: "wf_array (x m)"
      using step [OF mn] by simp_all
    have set: "{k. k < Suc m \<and> c k} = insert m {k. k < m \<and> c k}"
      using True by (auto simp: less_Suc_eq)
    have "item (acc (Suc m)) idx = item (acc m) idx + item (x m) idx"
      using item_add_arrays [OF add IH(1) wf] idx IH(2) by simp
    then have "item (acc (Suc m)) idx = (\<Sum>k | k < Suc m \<and> c k. item (x k) idx)"
      unfolding set IH(3) by simp
    then show ?thesis
      using add_arrays_wf [OF add IH(1) wf] add_arrays_shape [OF add] IH(2) by simp
  next
    case False
    then have "acc (Suc m) = acc m" using step [OF mn] by simp
    moreover have "{k. k < Suc m \<and> c k} = {k. k < m \<and> c k}"
      using False by (auto simp: less_Suc_eq)
    ultimately show ?thesis using IH by simp
  qed
qed

lemma no_index_in_empty_axis: "\<not> list_all2 (<) idx [0, n :: nat]"
  by (simp add: idx2)


text \<open>
  C3. In a run with \<open>0 < maxiter2 \<le> maxiter1\<close> on distinct arrays \<open>W\<close> and \<open>X\<close>, the four
  accumulators start as zero arrays; an iteration of the burn-in leaves them as they are
  and an iteration of the collection window, which consists of the last \<open>maxiter2\<close>
  iterations, adds to each of them exactly one array: the \<open>W\<close> in the store, the tensor
  \<open>A\<close>, the extended \<open>X_new\<close> and \<open>W\<close> times the transpose of \<open>X_new\<close>. The outputs are the
  accumulators divided by \<open>maxiter2\<close>, so each of their entries is the sum of that entry
  over the collected iterations, divided by \<open>maxiter2\<close>.
\<close>

theorem accumulators_average_collected_draws:
  assumes run: "BTMF lib dense_mat sparse_mat init rank time_lags maxiter1 maxiter2 (h, g)
                  = Some ((r_mat, r_W, r_X, r_A), h', g')"
    and m2: "0 < maxiter2" and m12: "maxiter2 \<le> maxiter1"
    and neq: "init_W init \<noteq> init_X init"
    and sh: "shape sparse_mat = [dim1, dim2]"
  shows "\<exists>st Ws As Xs Es.
      st 0 = btmf_start sparse_mat rank time_lags (h, g) \<and>
      W_plus (st 0) = zeros [dim1, rank] \<and> A_plus (st 0) = zeros [rank, rank, length time_lags] \<and>
      X_new_plus (st 0) = zeros [dim2 + 1, rank] \<and> mat_hat_plus (st 0) = zeros [dim1, dim2 + 1] \<and>
      (\<forall>k < nat maxiter1.
         btmf_iteration lib sparse_mat init rank time_lags maxiter1 maxiter2 (int k) (st k)
           = Some (st (Suc k)) \<and>
         (if int k + 1 > maxiter1 - maxiter2 then
            deref (heap (st (Suc k))) (init_W init) = Some (Ws k) \<and>
            var_A (st (Suc k)) = Some (As k) \<and> var_X_new (st (Suc k)) = Some (Xs k) \<and>
            matmul (Ws k) (transpose_array (Xs k)) = Some (Es k) \<and>
            add_arrays (W_plus (st k)) (Ws k) = Some (W_plus (st (Suc k))) \<and>
            add_arrays (A_plus (st k)) (As k) = Some (A_plus (st (Suc k))) \<and>
            add_arrays (X_new_plus (st k)) (Xs k) = Some (X_new_plus (st (Suc k))) \<and>
            add_arrays (mat_hat_plus (st k)) (Es k) = Some (mat_hat_plus (st (Suc k)))
          else
            W_plus (st (Suc k)) = W_plus (st k) \<and> A_plus (st (Suc k)) = A_plus (st k) \<and>
            X_new_plus (st (Suc k)) = X_new_plus (st k) \<and>
            mat_hat_plus (st (Suc k)) = mat_hat_plus (st k))) \<and>
      {k. k < nat maxiter1 \<and> int k + 1 > maxiter1 - maxiter2}
         = {nat (maxiter1 - maxiter2)..<nat maxiter1} \<and>
      card {nat (maxiter1 - maxiter2)..<nat maxiter1} = nat maxiter2 \<and>
      h' ! r_W = scalar_div (W_plus (st (nat maxiter1))) (real_of_int maxiter2) \<and>
      h' ! r_A = scalar_div (A_plus (st (nat maxiter1))) (real_of_int maxiter2) \<and>
      h' ! r_X = scalar_div (X_new_plus (st (nat maxiter1))) (real_of_int maxiter2) \<and>
      h' ! r_mat = scalar_div (mat_hat_plus (st (nat maxiter1))) (real_of_int maxiter2) \<and>
      (\<forall>idx. list_all2 (<) idx [dim1, rank] \<longrightarrow> item (h' ! r_W) idx
         = (\<Sum>k = nat (maxiter1 - maxiter2)..<nat maxiter1. item (Ws k) idx) / real_of_int maxiter2) \<and>
      (\<forall>idx. list_all2 (<) idx [rank, rank, length time_lags] \<longrightarrow> item (h' ! r_A) idx
         = (\<Sum>k = nat (maxiter1 - maxiter2)..<nat maxiter1. item (As k) idx) / real_of_int maxiter2) \<and>
      (\<forall>idx. list_all2 (<) idx [dim2 + 1, rank] \<longrightarrow> item (h' ! r_X) idx
         = (\<Sum>k = nat (maxiter1 - maxiter2)..<nat maxiter1. item (Xs k) idx) / real_of_int maxiter2) \<and>
      (\<forall>idx. list_all2 (<) idx [dim1, dim2 + 1] \<longrightarrow> item (h' ! r_mat) idx
         = (\<Sum>k = nat (maxiter1 - maxiter2)..<nat maxiter1. item (Es k) idx) / real_of_int maxiter2)"
proof (rule BTMF_SomeE [OF run])
  fix st
  let ?N = "nat maxiter1" and ?B = "nat (maxiter1 - maxiter2)"
  let ?c = "\<lambda>k. collecting maxiter1 maxiter2 (int k)"
  assume st0: "st 0 = btmf_start sparse_mat rank time_lags (h, g)"
    and step: "\<And>k. k < ?N \<Longrightarrow>
           btmf_iteration lib sparse_mat init rank time_lags maxiter1 maxiter2 (int k) (st k)
             = Some (st (Suc k))"
    and refs: "(r_mat, r_W, r_X, r_A) = (length (heap (st ?N)), length (heap (st ?N)) + 1,
                 length (heap (st ?N)) + 2, length (heap (st ?N)) + 3)"
    and h': "h' = heap (st ?N) @
               [scalar_div (mat_hat_plus (st ?N)) (real_of_int maxiter2),
                scalar_div (W_plus (st ?N)) (real_of_int maxiter2),
                scalar_div (X_new_plus (st ?N)) (real_of_int maxiter2),
                scalar_div (A_plus (st ?N)) (real_of_int maxiter2)]"
  define Ws where "Ws k = heap (st (Suc k)) ! init_W init" for k
  define As where "As k = the (var_A (st (Suc k)))" for k
  define Xs where "Xs k = the (var_X_new (st (Suc k)))" for k
  define Es where "Es k = the (matmul (Ws k) (transpose_array (Xs k)))" for k
  \<comment> \<open>the accumulators before the loop\<close>
  have zero: "W_plus (st 0) = zeros [dim1, rank]" "A_plus (st 0) = zeros [rank, rank, length time_lags]"
    "X_new_plus (st 0) = zeros [dim2 + 1, rank]" "mat_hat_plus (st 0) = zeros [dim1, dim2 + 1]"
    by (simp_all add: st0 btmf_start_def Let_def sh)
  \<comment> \<open>one iteration\<close>
  have coll: "deref (heap (st (Suc k))) (init_W init) = Some (Ws k) \<and>
            var_A (st (Suc k)) = Some (As k) \<and> var_X_new (st (Suc k)) = Some (Xs k) \<and>
            matmul (Ws k) (transpose_array (Xs k)) = Some (Es k) \<and>
            add_arrays (W_plus (st k)) (Ws k) = Some (W_plus (st (Suc k))) \<and>
            add_arrays (A_plus (st k)) (As k) = Some (A_plus (st (Suc k))) \<and>
            add_arrays (X_new_plus (st k)) (Xs k) = Some (X_new_plus (st (Suc k))) \<and>
            add_arrays (mat_hat_plus (st k)) (Es k) = Some (mat_hat_plus (st (Suc k)))"
    and wfs: "wf_array (As k)" "wf_array (Xs k)" "wf_array (Es k)"
    if k: "k < ?N" and c: "?c k" for k
  proof -
    from btmf_iteration_accumulates(1) [OF step [OF k] neq c]
    obtain W A X X_new extended where
      W: "deref (heap (st (Suc k))) (init_W init) = Some W"
      and vA: "var_A (st (Suc k)) = Some A" and vX: "var_X_new (st (Suc k)) = Some X_new"
      and eX: "extend_X rank time_lags (shape sparse_mat ! 1) A X = Some X_new"
      and mm: "matmul W (transpose_array X_new) = Some extended"
      and adds: "add_arrays (W_plus (st k)) W = Some (W_plus (st (Suc k)))"
        "add_arrays (A_plus (st k)) A = Some (A_plus (st (Suc k)))"
        "add_arrays (X_new_plus (st k)) X_new = Some (X_new_plus (st (Suc k)))"
        "add_arrays (mat_hat_plus (st k)) extended = Some (mat_hat_plus (st (Suc k)))"
      by blast
    have eq: "Ws k = W" "As k = A" "Xs k = X_new"
      using W vA vX by (auto simp: Ws_def As_def Xs_def deref_def split: if_splits)
    then have eqE: "Es k = extended" using mm by (simp add: Es_def)
    show "deref (heap (st (Suc k))) (init_W init) = Some (Ws k) \<and>
            var_A (st (Suc k)) = Some (As k) \<and> var_X_new (st (Suc k)) = Some (Xs k) \<and>
            matmul (Ws k) (transpose_array (Xs k)) = Some (Es k) \<and>
            add_arrays (W_plus (st k)) (Ws k) = Some (W_plus (st (Suc k))) \<and>
            add_arrays (A_plus (st k)) (As k) = Some (A_plus (st (Suc k))) \<and>
            add_arrays (X_new_plus (st k)) (Xs k) = Some (X_new_plus (st (Suc k))) \<and>
            add_arrays (mat_hat_plus (st k)) (Es k) = Some (mat_hat_plus (st (Suc k)))"
      using W vA vX mm adds by (simp add: eq eqE)
    from step [OF k] obtain X1 g1 Sigma_x g2 where
      "sample_A lib rank time_lags (shape sparse_mat ! 1) X1 g1 = Some ((A, Sigma_x), g2)"
      using vA by (elim btmf_iteration_SomeE) simp
    then show "wf_array (As k)" using sample_A_wf by (simp add: eq)
    show "wf_array (Xs k)" using extend_X_wf [OF eX] by (simp add: eq)
    show "wf_array (Es k)" using matmul_wf [OF mm] by (simp add: eqE)
  qed
  have burn: "W_plus (st (Suc k)) = W_plus (st k) \<and> A_plus (st (Suc k)) = A_plus (st k) \<and>
            X_new_plus (st (Suc k)) = X_new_plus (st k) \<and>
            mat_hat_plus (st (Suc k)) = mat_hat_plus (st k)"
    if k: "k < ?N" and c: "\<not> ?c k" for k
    using btmf_iteration_accumulates(2) [OF step [OF k] neq c] .
  have wfW: "wf_array (Ws k)" if k: "k < ?N" and pos: "0 < dim1" for k
    using btmf_iteration_W_wf [OF step [OF k] neq] pos sh by (simp add: Ws_def)
  have iter: "\<forall>k < ?N.
         btmf_iteration lib sparse_mat init rank time_lags maxiter1 maxiter2 (int k) (st k)
           = Some (st (Suc k)) \<and>
         (if int k + 1 > maxiter1 - maxiter2 then
            deref (heap (st (Suc k))) (init_W init) = Some (Ws k) \<and>
            var_A (st (Suc k)) = Some (As k) \<and> var_X_new (st (Suc k)) = Some (Xs k) \<and>
            matmul (Ws k) (transpose_array (Xs k)) = Some (Es k) \<and>
            add_arrays (W_plus (st k)) (Ws k) = Some (W_plus (st (Suc k))) \<and>
            add_arrays (A_plus (st k)) (As k) = Some (A_plus (st (Suc k))) \<and>
            add_arrays (X_new_plus (st k)) (Xs k) = Some (X_new_plus (st (Suc k))) \<and>
            add_arrays (mat_hat_plus (st k)) (Es k) = Some (mat_hat_plus (st (Suc k)))
          else
            W_plus (st (Suc k)) = W_plus (st k) \<and> A_plus (st (Suc k)) = A_plus (st k) \<and>
            X_new_plus (st (Suc k)) = X_new_plus (st k) \<and>
            mat_hat_plus (st (Suc k)) = mat_hat_plus (st k))"
    using step coll burn unfolding collecting_def by simp
  \<comment> \<open>the collection window\<close>
  note window = collected_iterations [OF m2 m12]
  have window': "{k. k < ?N \<and> int k + 1 > maxiter1 - maxiter2} = {?B..<?N}"
    using window(1) by (simp add: collecting_def)
  \<comment> \<open>the outputs\<close>
  have outs: "h' ! r_W = scalar_div (W_plus (st ?N)) (real_of_int maxiter2)"
    "h' ! r_A = scalar_div (A_plus (st ?N)) (real_of_int maxiter2)"
    "h' ! r_X = scalar_div (X_new_plus (st ?N)) (real_of_int maxiter2)"
    "h' ! r_mat = scalar_div (mat_hat_plus (st ?N)) (real_of_int maxiter2)"
    using refs by (simp_all add: h' nth_append)
  \<comment> \<open>the accumulated sums\<close>
  have sumA: "item (h' ! r_A) idx = (\<Sum>k = ?B..<?N. item (As k) idx) / real_of_int maxiter2"
    if idx: "list_all2 (<) idx [rank, rank, length time_lags]" for idx
  proof -
    have "wf_array (A_plus (st ?N)) \<and> shape (A_plus (st ?N)) = [rank, rank, length time_lags]
       \<and> item (A_plus (st ?N)) idx = (\<Sum>k | k < ?N \<and> ?c k. item (As k) idx)"
    proof (rule accumulated_sum [where acc = "\<lambda>k. A_plus (st k)" and x = As and c = ?c and n = ?N])
      show "A_plus (st 0) = zeros [rank, rank, length time_lags]" by (rule zero(2))
      show "if ?c k then add_arrays (A_plus (st k)) (As k) = Some (A_plus (st (Suc k))) \<and> wf_array (As k)
            else A_plus (st (Suc k)) = A_plus (st k)" if "k < ?N" for k
        using that coll wfs burn by auto
    qed (rule idx, rule order_refl)
    then show ?thesis using idx by (simp add: outs item_scalar_div window(1))
  qed
  have sumX: "item (h' ! r_X) idx = (\<Sum>k = ?B..<?N. item (Xs k) idx) / real_of_int maxiter2"
    if idx: "list_all2 (<) idx [dim2 + 1, rank]" for idx
  proof -
    have "wf_array (X_new_plus (st ?N)) \<and> shape (X_new_plus (st ?N)) = [dim2 + 1, rank]
       \<and> item (X_new_plus (st ?N)) idx = (\<Sum>k | k < ?N \<and> ?c k. item (Xs k) idx)"
    proof (rule accumulated_sum [where acc = "\<lambda>k. X_new_plus (st k)" and x = Xs and c = ?c and n = ?N])
      show "X_new_plus (st 0) = zeros [dim2 + 1, rank]" by (rule zero(3))
      show "if ?c k then add_arrays (X_new_plus (st k)) (Xs k) = Some (X_new_plus (st (Suc k))) \<and> wf_array (Xs k)
            else X_new_plus (st (Suc k)) = X_new_plus (st k)" if "k < ?N" for k
        using that coll wfs burn by auto
    qed (rule idx, rule order_refl)
    then show ?thesis using idx by (simp add: outs item_scalar_div window(1))
  qed
  have sumE: "item (h' ! r_mat) idx = (\<Sum>k = ?B..<?N. item (Es k) idx) / real_of_int maxiter2"
    if idx: "list_all2 (<) idx [dim1, dim2 + 1]" for idx
  proof -
    have "wf_array (mat_hat_plus (st ?N)) \<and> shape (mat_hat_plus (st ?N)) = [dim1, dim2 + 1]
       \<and> item (mat_hat_plus (st ?N)) idx = (\<Sum>k | k < ?N \<and> ?c k. item (Es k) idx)"
    proof (rule accumulated_sum [where acc = "\<lambda>k. mat_hat_plus (st k)" and x = Es and c = ?c and n = ?N])
      show "mat_hat_plus (st 0) = zeros [dim1, dim2 + 1]" by (rule zero(4))
      show "if ?c k then add_arrays (mat_hat_plus (st k)) (Es k) = Some (mat_hat_plus (st (Suc k))) \<and> wf_array (Es k)
            else mat_hat_plus (st (Suc k)) = mat_hat_plus (st k)" if "k < ?N" for k
        using that coll wfs burn by auto
    qed (rule idx, rule order_refl)
    then show ?thesis using idx by (simp add: outs item_scalar_div window(1))
  qed
  have sumW: "item (h' ! r_W) idx = (\<Sum>k = ?B..<?N. item (Ws k) idx) / real_of_int maxiter2"
    if idx: "list_all2 (<) idx [dim1, rank]" for idx
  proof -
    have pos: "0 < dim1" using idx no_index_in_empty_axis [of idx rank] by (cases dim1) auto
    have "wf_array (W_plus (st ?N)) \<and> shape (W_plus (st ?N)) = [dim1, rank]
       \<and> item (W_plus (st ?N)) idx = (\<Sum>k | k < ?N \<and> ?c k. item (Ws k) idx)"
    proof (rule accumulated_sum [where acc = "\<lambda>k. W_plus (st k)" and x = Ws and c = ?c and n = ?N])
      show "W_plus (st 0) = zeros [dim1, rank]" by (rule zero(1))
      show "if ?c k then add_arrays (W_plus (st k)) (Ws k) = Some (W_plus (st (Suc k))) \<and> wf_array (Ws k)
            else W_plus (st (Suc k)) = W_plus (st k)" if "k < ?N" for k
        using that coll wfW pos burn by auto
    qed (rule idx, rule order_refl)
    then show ?thesis using idx by (simp add: outs item_scalar_div window(1))
  qed
  show ?thesis
    apply (rule exI [of _ st], rule exI [of _ Ws], rule exI [of _ As], rule exI [of _ Xs],
        rule exI [of _ Es])
    using st0 zero iter window' window(2) outs sumW [THEN impI [THEN allI]]
      sumA [THEN impI [THEN allI]] sumX [THEN impI [THEN allI]] sumE [THEN impI [THEN allI]]
    by (intro conjI) assumption+
qed


theorem accumulators_average_collected_draws_witness:
  "(0::int) < 1 \<and> (1::int) \<le> 2 \<and> init_W example_init \<noteq> init_X example_init
   \<and> shape example_sparse = [1, 2]
   \<and> (\<exists>h' g' st.
         BTMF fixed_draws example_dense example_sparse example_init 2 [1] 2 1 (example_store, 0)
           = Some ((2, 3, 4, 5), h', g')
         \<and> st (0::nat) = btmf_start example_sparse 2 [1] (example_store, 0 :: nat)
         \<and> W_plus (st (0::nat)) = zeros [1, 2]
         \<and> W_plus (st (1::nat)) = W_plus (st (0::nat))
         \<and> add_arrays (W_plus (st (1::nat))) (heap (st (2::nat)) ! 0) = Some (W_plus (st (2::nat)))
         \<and> h' ! 3 = scalar_div (W_plus (st (2::nat))) 1)"
proof -
  have neq: "init_W example_init \<noteq> init_X example_init" and i0: "init_W example_init = 0"
    by (simp_all add: example_init_def)
  have sh: "shape example_sparse = [1, 2]" by (simp add: example_sparse_def)
  have m1: "(0::int) < 1" and m2: "(1::int) \<le> 2" by simp_all
  obtain H G where run: "BTMF fixed_draws example_dense example_sparse example_init 2 [1] 2 1
      (example_store, 0) = Some ((2, 3, 4, 5), H, G)"
    using example_run by blast
  have "\<exists>st Ws. st 0 = btmf_start example_sparse 2 [1] (example_store, 0 :: nat)
      \<and> W_plus (st 0) = zeros [1, 2]
      \<and> (\<forall>k < nat 2.
         (if int k + 1 > 2 - 1 then
            deref (heap (st (Suc k))) (init_W example_init) = Some (Ws k) \<and>
            add_arrays (W_plus (st k)) (Ws k) = Some (W_plus (st (Suc k)))
          else W_plus (st (Suc k)) = W_plus (st k)))
      \<and> H ! 3 = scalar_div (W_plus (st (nat 2))) (real_of_int 1)"
    using accumulators_average_collected_draws [OF run m1 m2 neq sh]
    apply (elim exE conjE)
    subgoal for st Ws As Xs Es
      by (rule exI [of _ st], rule exI [of _ Ws]) (simp split: if_splits)
    done
  then obtain st Ws where st0: "st 0 = btmf_start example_sparse 2 [1] (example_store, 0 :: nat)"
    and z: "W_plus (st 0) = zeros [1, 2]"
    and it: "\<forall>k < nat 2.
         (if int k + 1 > 2 - 1 then
            deref (heap (st (Suc k))) (init_W example_init) = Some (Ws k) \<and>
            add_arrays (W_plus (st k)) (Ws k) = Some (W_plus (st (Suc k)))
          else W_plus (st (Suc k)) = W_plus (st k))"
    and out: "H ! 3 = scalar_div (W_plus (st (nat 2))) (real_of_int 1)"
    by blast
  have "W_plus (st 1) = W_plus (st 0)" using it [rule_format, of 0] by simp
  moreover have "deref (heap (st 2)) 0 = Some (Ws 1)"
    "add_arrays (W_plus (st 1)) (Ws 1) = Some (W_plus (st 2))"
    using it [rule_format, of 1] by (simp_all add: i0 numeral_2_eq_2)
  then have "add_arrays (W_plus (st 1)) (heap (st 2) ! 0) = Some (W_plus (st 2))"
    by (auto simp: deref_def split: if_splits)
  ultimately have "BTMF fixed_draws example_dense example_sparse example_init 2 [1] 2 1 (example_store, 0)
           = Some ((2, 3, 4, 5), H, G)
         \<and> st 0 = btmf_start example_sparse 2 [1] (example_store, 0 :: nat)
         \<and> W_plus (st 0) = zeros [1, 2]
         \<and> W_plus (st 1) = W_plus (st 0)
         \<and> add_arrays (W_plus (st 1)) (heap (st 2) ! 0) = Some (W_plus (st 2))
         \<and> H ! 3 = scalar_div (W_plus (st 2)) 1"
    using run st0 z out by simp
  then show ?thesis using neq sh m1 m2 by blast
qed

subsection \<open>The caller's arrays after a run\<close>









end
